theory Spec2Isabelle
  imports Complex_Main "HOL-Library.Product_Lexorder"
begin

section \<open>Exceptions and collaborators\<close>

text \<open>
  Python exceptions are values: a kind and the message that \<^verbatim>\<open>str(e)\<close> yields.
  Every stateful operation returns its result (or the exception) together with the
  world it leaves behind.
\<close>

datatype exc_kind = DoesNotExist | ValueError | AssertionError | TypeError | IndexError | PlainException

datatype py_exception = PyExc (exc_kind: exc_kind) (exc_str: string)

text \<open>
  A Python float is a finite number, an infinity or NaN. An embedding is a Python list of
  floats (\<^verbatim>\<open>embedding.tolist()\<close>); the index service casts it to a float32 array
  (\<^verbatim>\<open>np.array(..., dtype='float32')\<close>) whenever it hands it to the FAISS library.
\<close>

datatype py_float = Finite real | PosInf | NegInf | NaN

type_synonym vec = "py_float list"

text \<open>
  The external collaborators: the embedding model (\<^verbatim>\<open>SentenceTransformer.encode\<close> on one text
  and on a batch), its constructor, the PDF reader (raw text of every page, in page order)
  and the generation model. \<open>env_dimension\<close> is \<^verbatim>\<open>VectorDBService.dimension\<close>.

  The float32 side of the index is two more collaborators, of which nothing is assumed.
  \<open>env_float32 x\<close> is the float32 value that \<^verbatim>\<open>np.array(..., dtype='float32')\<close> makes of the
  Python float \<open>x\<close>: two different floats may become the same float32 value, and a large
  one becomes an infinity. \<open>env_l2sqr row q\<close> is the squared distance that the FAISS library
  computes, in float32 arithmetic, between a stored float32 row and a float32 query; it is
  \<open>None\<close> when the computation overflows or yields NaN, in which case the library does not
  rank the row. Two different vectors may be at distance zero (the squares underflow), and
  a vector need not be at distance zero from itself (a NaN or an infinite component).
\<close>

record env =
  env_dimension :: nat
  env_encode :: "string \<Rightarrow> py_exception + vec"
  env_encode_batch :: "string list \<Rightarrow> py_exception + vec list"
  env_load_model :: "py_exception option"
  env_read_pages :: "string \<Rightarrow> py_exception + string list"
  env_generate :: "string \<Rightarrow> py_exception + string"
  env_float32 :: "py_float \<Rightarrow> py_float"
  env_l2sqr :: "vec \<Rightarrow> vec \<Rightarrow> real option"

section \<open>Data model (document/models.py)\<close>

datatype status = Pending | Processing | Completed | Failed

record pdf_file =
  pdf_user_id :: int
  pdf_original_filename :: string
  pdf_file_path :: string
  pdf_upload_date :: int
  pdf_processing_status :: status
  pdf_page_count :: "int option"
  pdf_total_chunks :: int
  pdf_metadata :: "string option"

record chunk =
  chunk_pdf_id :: int
  chunk_user_id :: int
  chunk_text :: string
  chunk_index :: int
  chunk_page_number :: int
  chunk_start_char :: int
  chunk_end_char :: int
  chunk_token_count :: int
  chunk_vector_id :: "string option"

text \<open>
  A FAISS \<^verbatim>\<open>IndexFlatL2\<close>: its dimension and the stored float32 rows, slot \<open>i\<close> being the
  \<open>i\<close>-th row added; \<^verbatim>\<open>ntotal\<close> is the number of stored rows.
\<close>

record faiss_index =
  ix_d :: nat
  ix_xb :: "vec list"

definition ntotal :: "faiss_index \<Rightarrow> nat" where
  "ntotal ix = length (ix_xb ix)"

record message =
  msg_session_id :: int
  msg_user_id :: int
  msg_role :: string
  msg_content :: string
  msg_chunk_ids :: "int list"

text \<open>
  The world: the two database tables (rows in primary-key insertion order, with the next
  automatic id), the per-user index and metadata files under \<^verbatim>\<open>vector_indexes/\<close>, the chat
  transcript, and three observation fields that no source code reads: the number of calls
  into the embedding service, the number of calls of the generation model, and the
  sequence of processing statuses written to the database.
\<close>

record world =
  pdf_table :: "(int \<times> pdf_file) list"
  chunk_table :: "(int \<times> chunk) list"
  next_chunk_id :: int
  index_files :: "int \<rightharpoonup> faiss_index"
  metadata_files :: "int \<rightharpoonup> (nat \<rightharpoonup> int)"
  messages :: "message list"
  embed_calls :: nat
  gen_calls :: nat
  status_log :: "(int \<times> status) list"

section \<open>Strings of numbers\<close>

fun str_nat :: "nat \<Rightarrow> string" where
  "str_nat n = (if n < 10 then [char_of (48 + n)] else str_nat (n div 10) @ [char_of (48 + n mod 10)])"

definition str_int :: "int \<Rightarrow> string" where
  "str_int i = (if i < 0 then CHR ''-'' # str_nat (nat (- i)) else str_nat (nat i))"

section \<open>Django queries on the chunk table\<close>

text \<open>
  \<^verbatim>\<open>Chunk.Meta.ordering = ['pdf', 'chunk_index']\<close>: ordering by the relation \<^verbatim>\<open>pdf\<close> is
  ordering by the default ordering of the related model, and
  \<^verbatim>\<open>PDFFile.Meta.ordering = ['-upload_date']\<close>. Every query set without an explicit
  \<^verbatim>\<open>order_by\<close> is therefore returned sorted by the upload date of the chunk's document,
  latest first, then by position; rows that tie keep the table's order. The foreign key
  makes the document row exist; the key \<open>0\<close> stands in where a world has no such row.
\<close>

definition pdf_ordering_key :: "world \<Rightarrow> int \<Rightarrow> int" where
  "pdf_ordering_key w pdf_id =
     (case map_of (pdf_table w) pdf_id of Some pdf \<Rightarrow> - pdf_upload_date pdf | None \<Rightarrow> 0)"

definition chunk_ordering :: "world \<Rightarrow> (int \<times> chunk) list \<Rightarrow> (int \<times> chunk) list" where
  "chunk_ordering w rows =
     sort_key (\<lambda>r. (pdf_ordering_key w (chunk_pdf_id (snd r)), chunk_index (snd r))) rows"

definition chunks_filter :: "world \<Rightarrow> (chunk \<Rightarrow> bool) \<Rightarrow> (int \<times> chunk) list" where
  "chunks_filter w P = chunk_ordering w (filter (\<lambda>r. P (snd r)) (chunk_table w))"

definition chunk_get :: "world \<Rightarrow> int \<Rightarrow> chunk option" where
  "chunk_get w cid = map_of (chunk_table w) cid"

definition chunk_save :: "int \<Rightarrow> chunk \<Rightarrow> world \<Rightarrow> world" where
  "chunk_save cid c w =
     w\<lparr>chunk_table := map (\<lambda>r. if fst r = cid then (cid, c) else r) (chunk_table w)\<rparr>"

section \<open>Embedding service (document/services/embedding_service.py)\<close>

text \<open>A Python dict is an association list in insertion order; assignment keeps the
  position of a key that is already present.\<close>

fun dict_set :: "('k \<times> 'v) list \<Rightarrow> 'k \<Rightarrow> 'v \<Rightarrow> ('k \<times> 'v) list" where
  "dict_set [] k v = [(k, v)]"
| "dict_set (p # ps) k v = (if fst p = k then (k, v) # ps else p # dict_set ps k v)"

text \<open>A string has one \<open>char\<close> for every character of the Python string, the character
  being its code point (below 256). The accented letters of the messages:\<close>

definition E_acute :: string where
  "E_acute = [char_of (0xC9 :: nat)]"

definition e_acute :: string where
  "e_acute = [char_of (0xE9 :: nat)]"

definition e_circ :: string where
  "e_circ = [char_of (0xEA :: nat)]"

definition a_grave :: string where
  "a_grave = [char_of (0xE0 :: nat)]"

definition generate_embedding :: "env \<Rightarrow> string \<Rightarrow> py_exception + vec" where
  "generate_embedding e text =
     (case env_encode e text of
        Inr v \<Rightarrow> Inr v
      | Inl x \<Rightarrow> Inl (PyExc PlainException
          (E_acute @ ''chec de g'' @ e_acute @ ''n'' @ e_acute @ ''ration de l'embedding: '' @ exc_str x)))"

definition generate_embeddings_batch :: "env \<Rightarrow> string list \<Rightarrow> py_exception + vec list" where
  "generate_embeddings_batch e texts =
     (case env_encode_batch e texts of
        Inr vs \<Rightarrow> Inr vs
      | Inl x \<Rightarrow> Inl (PyExc PlainException
          (E_acute @ ''chec de g'' @ e_acute @ ''n'' @ e_acute @ ''ration des embeddings batch: '' @ exc_str x)))"

definition generate_query_embedding :: "env \<Rightarrow> world \<Rightarrow> string \<Rightarrow> (py_exception + vec) \<times> world" where
  "generate_query_embedding e w query =
     (generate_embedding e query, w\<lparr>embed_calls := Suc (embed_calls w)\<rparr>)"

definition embed_chunks :: "env \<Rightarrow> world \<Rightarrow> (int \<times> chunk) list \<Rightarrow> (py_exception + (int \<times> vec) list) \<times> world" where
  "embed_chunks e w chunks =
     (let w1 = w\<lparr>embed_calls := Suc (embed_calls w)\<rparr> in
      if chunks = [] then (Inr [], w1)
      else
        let texts = map (\<lambda>r. chunk_text (snd r)) chunks;
            chunk_ids = map fst chunks
        in case generate_embeddings_batch e texts of
             Inl x \<Rightarrow> (Inl x, w1)
           | Inr embeddings \<Rightarrow>
               (Inr (foldl (\<lambda>d (cid, v). dict_set d cid v) [] (zip chunk_ids embeddings)), w1))"

section \<open>Per-user vector index (document/services/vector_db_service.py)\<close>

definition load_user_index :: "env \<Rightarrow> world \<Rightarrow> int \<Rightarrow> faiss_index \<times> (nat \<rightharpoonup> int)" where
  "load_user_index e w user_id =
     (case index_files w user_id of
        Some index \<Rightarrow>
          (index, case metadata_files w user_id of Some metadata \<Rightarrow> metadata | None \<Rightarrow> Map.empty)
      | None \<Rightarrow> (\<lparr>ix_d = env_dimension e, ix_xb = []\<rparr>, Map.empty))"

definition save_user_index :: "world \<Rightarrow> int \<Rightarrow> faiss_index \<Rightarrow> (nat \<rightharpoonup> int) \<Rightarrow> world" where
  "save_user_index w user_id index metadata =
     w\<lparr>index_files := (index_files w)(user_id \<mapsto> index),
        metadata_files := (metadata_files w)(user_id \<mapsto> metadata)\<rparr>"

text \<open>\<^verbatim>\<open>np.array(v, dtype='float32')\<close> on one list of floats.\<close>

definition np_float32 :: "env \<Rightarrow> vec \<Rightarrow> vec" where
  "np_float32 e v = map (env_float32 e) v"

text \<open>
  \<^verbatim>\<open>np.array(rows, dtype='float32')\<close> followed by \<^verbatim>\<open>index.add\<close>: an empty list of rows is a
  one-dimensional array, whose shape does not unpack; rows of different lengths do not
  form an array; and the row length must be the dimension of the index. The rows that
  are stored are the float32 casts.
\<close>

definition index_add :: "env \<Rightarrow> faiss_index \<Rightarrow> vec list \<Rightarrow> py_exception + faiss_index" where
  "index_add e index vectors =
     (if vectors = [] then Inl (PyExc ValueError ''not enough values to unpack'')
      else if \<exists>v \<in> set vectors. length v \<noteq> length (hd vectors)
        then Inl (PyExc ValueError ''inhomogeneous shape'')
      else if length (hd vectors) \<noteq> ix_d index then Inl (PyExc AssertionError [])
      else Inr (index\<lparr>ix_xb := ix_xb index @ map (np_float32 e) vectors\<rparr>))"

text \<open>The computed distance of slot \<open>i\<close> to a float32 query, and the slots that have one.\<close>

definition slot_distance :: "env \<Rightarrow> faiss_index \<Rightarrow> vec \<Rightarrow> nat \<Rightarrow> real option" where
  "slot_distance e index q i = env_l2sqr e (ix_xb index ! i) q"

definition ranked_slots :: "env \<Rightarrow> faiss_index \<Rightarrow> vec \<Rightarrow> nat list" where
  "ranked_slots e index q = filter (\<lambda>i. slot_distance e index q i \<noteq> None) [0 ..< ntotal index]"

text \<open>
  Modelled from the spec: the exact nearest-neighbour search of the FAISS library
  (\<^verbatim>\<open>IndexFlatL2.search\<close>), which is not part of the repository. Section 4.3 of the
  specification: squared Euclidean distance over the raw vectors, at most \<open>k\<close> results
  in ascending distance, ties broken by ascending slot number. The distance is the one
  the library computes (\<open>env_l2sqr\<close>); a slot for which it computes none is not
  ranked: the library reports the slot \<^verbatim>\<open>-1\<close> in its place, which \<^verbatim>\<open>search\<close> drops, \<^verbatim>\<open>-1\<close>
  being no key of the metadata. The library's wrapper
  asserts that the query has the dimension of the index and that \<open>k\<close> is positive.
\<close>

definition index_search :: "env \<Rightarrow> faiss_index \<Rightarrow> vec \<Rightarrow> int \<Rightarrow> py_exception + nat list" where
  "index_search e index q k =
     (if length q \<noteq> ix_d index then Inl (PyExc AssertionError [])
      else if k \<le> 0 then Inl (PyExc AssertionError [])
      else Inr (take (nat k)
                  (sort_key (\<lambda>i. the (slot_distance e index q i)) (ranked_slots e index q))))"

text \<open>The loop of \<^verbatim>\<open>add_embeddings\<close> over \<^verbatim>\<open>enumerate(chunk_ids)\<close>; \<open>i\<close> is the position
  reached so far.\<close>

fun add_loop :: "nat \<Rightarrow> nat \<Rightarrow> int list \<Rightarrow> (nat \<rightharpoonup> int) \<times> world \<Rightarrow> (nat \<rightharpoonup> int) \<times> world" where
  "add_loop current_size i [] mw = mw"
| "add_loop current_size i (chunk_id # rest) (metadata, w) =
     (let faiss_idx = current_size + i;
          metadata' = metadata(faiss_idx \<mapsto> chunk_id);
          w' = (case chunk_get w chunk_id of
                  Some c \<Rightarrow> chunk_save chunk_id (c\<lparr>chunk_vector_id := Some (str_nat faiss_idx)\<rparr>) w
                | None \<Rightarrow> w)
      in add_loop current_size (Suc i) rest (metadata', w'))"

definition add_embeddings :: "env \<Rightarrow> world \<Rightarrow> int \<Rightarrow> (int \<times> vec) list \<Rightarrow> (py_exception + unit) \<times> world" where
  "add_embeddings e w user_id chunk_embeddings =
     (let (index, metadata) = load_user_index e w user_id;
          chunk_ids = map fst chunk_embeddings;
          vectors = map snd chunk_embeddings;
          current_size = ntotal index
      in case index_add e index vectors of
           Inl x \<Rightarrow> (Inl x, w)
         | Inr index' \<Rightarrow>
             (let (metadata', w') = add_loop current_size 0 chunk_ids (metadata, w)
              in (Inr (), save_user_index w' user_id index' metadata')))"

definition search :: "env \<Rightarrow> world \<Rightarrow> int \<Rightarrow> vec \<Rightarrow> int \<Rightarrow> py_exception + int list" where
  "search e w user_id query_embedding top_k =
     (let (index, metadata) = load_user_index e w user_id in
      if ntotal index = 0 then Inr []
      else
        let query_vector = np_float32 e query_embedding in
        case index_search e index query_vector (min top_k (int (ntotal index))) of
             Inl x \<Rightarrow> Inl x
           | Inr indices \<Rightarrow> Inr (List.map_filter metadata indices))"

definition remove_index_files :: "world \<Rightarrow> int \<Rightarrow> world" where
  "remove_index_files w user_id =
     w\<lparr>index_files := (index_files w)(user_id := None),
        metadata_files := (metadata_files w)(user_id := None)\<rparr>"

definition delete_pdf_vectors :: "env \<Rightarrow> world \<Rightarrow> int \<Rightarrow> int \<Rightarrow> (py_exception + unit) \<times> world" where
  "delete_pdf_vectors e w pdf_id user_id =
     (let pdf_chunks = chunks_filter w (\<lambda>c. chunk_pdf_id c = pdf_id \<and> chunk_user_id c = user_id);
          chunk_ids_to_remove = set (map fst pdf_chunks)
      in if chunk_ids_to_remove = {} then (Inr (), w)
      else
        let all_user_chunks = chunks_filter w (\<lambda>c. chunk_user_id c = user_id \<and> chunk_pdf_id c \<noteq> pdf_id)
        in if length all_user_chunks = 0 then (Inr (), remove_index_files w user_id)
        else
          let new_index = \<lparr>ix_d = env_dimension e, ix_xb = []\<rparr> in
          case env_load_model e of
            Some x \<Rightarrow> (Inl x, w)
          | None \<Rightarrow>
             (case embed_chunks e w all_user_chunks of
                (Inl x, w1) \<Rightarrow> (Inl x, w1)
              | (Inr chunk_embeddings, w1) \<Rightarrow>
                  (let chunk_ids = map fst chunk_embeddings;
                       vectors = map snd chunk_embeddings
                   in case index_add e new_index vectors of
                        Inl x \<Rightarrow> (Inl x, w1)
                      | Inr new_index' \<Rightarrow>
                          (Inr (), save_user_index w1 user_id new_index'
                                     (map_of (zip [0 ..< length chunk_ids] chunk_ids))))))"

section \<open>Vocabulary of the properties\<close>

text \<open>The body of the loop of \<^verbatim>\<open>add_embeddings\<close> on the chunk table: the back-reference
  \<^verbatim>\<open>vector_id\<close> of the chunk, if the chunk has a record.\<close>

definition add_step :: "nat \<Rightarrow> int \<Rightarrow> world \<Rightarrow> world" where
  "add_step idx cid w = (case chunk_get w cid of
                  Some c \<Rightarrow> chunk_save cid (c\<lparr>chunk_vector_id := Some (str_nat idx)\<rparr>) w
                | None \<Rightarrow> w)"

text \<open>What the index operations leave alone in the chunk table: the ids, and the document
  and the user of every chunk.\<close>

definition owner_view :: "world \<Rightarrow> (int \<times> int \<times> int) list" where
  "owner_view w = map (\<lambda>r. (fst r, chunk_pdf_id (snd r), chunk_user_id (snd r))) (chunk_table w)"

text \<open>No index maps a slot to a chunk of another user; chunk ids are a primary key.\<close>

definition isolated :: "world \<Rightarrow> bool" where
  "isolated w \<longleftrightarrow> (\<forall>u md s c r. metadata_files w u = Some md \<longrightarrow> md s = Some c \<longrightarrow>
       chunk_get w c = Some r \<longrightarrow> chunk_user_id r = u)"

definition primary_key :: "world \<Rightarrow> bool" where
  "primary_key w \<longleftrightarrow> distinct (map fst (chunk_table w))"

text \<open>Sequences of the two writing operations of the index, whatever their outcome: an
  operation that raises leaves the world as \<^verbatim>\<open>add_embeddings\<close> or \<^verbatim>\<open>delete_pdf_vectors\<close> left it.\<close>

datatype index_op = Add int "(int \<times> vec) list" | DeleteForDocument int int

fun apply_op :: "env \<Rightarrow> world \<Rightarrow> index_op \<Rightarrow> world" where
  "apply_op e w (Add user_id chunk_embeddings) = snd (add_embeddings e w user_id chunk_embeddings)"
| "apply_op e w (DeleteForDocument pdf_id user_id) = snd (delete_pdf_vectors e w pdf_id user_id)"

definition run_ops :: "env \<Rightarrow> world \<Rightarrow> index_op list \<Rightarrow> world" where
  "run_ops e w ops = foldl (apply_op e) w ops"

definition belongs_to_user :: "world \<Rightarrow> int \<Rightarrow> int \<Rightarrow> bool" where
  "belongs_to_user w c u = (case chunk_get w c of Some r \<Rightarrow> chunk_user_id r = u | None \<Rightarrow> False)"

fun no_foreign_chunk :: "world \<Rightarrow> index_op \<Rightarrow> bool" where
  "no_foreign_chunk w (Add user_id chunk_embeddings) =
     (\<forall>c \<in> set (map fst chunk_embeddings). \<forall>u. belongs_to_user w c u \<longrightarrow> u = user_id)"
| "no_foreign_chunk w (DeleteForDocument pdf_id user_id) = True"

section \<open>Example collaborators and worlds\<close>

text \<open>The squared distance of two lists of finite numbers, without rounding. It is what
  float32 arithmetic computes on the vectors of the examples below, whose components are
  small natural numbers: these, their differences and the sums of their squares are all
  float32 values. For the same reason the cast to float32 leaves the components of the
  examples as they are.\<close>

fun exact_l2sqr :: "vec \<Rightarrow> vec \<Rightarrow> real option" where
  "exact_l2sqr [] [] = Some 0"
| "exact_l2sqr (Finite a # as) (Finite b # bs) =
     map_option (\<lambda>d. (a - b) ^ 2 + d) (exact_l2sqr as bs)"
| "exact_l2sqr as bs = None"

text \<open>An embedding model that maps a text to the one-dimensional vector of its length, a
  reader that finds no page, a generation model that answers \<^verbatim>\<open>ok\<close>.\<close>

definition env0 :: env where
  "env0 = \<lparr>env_dimension = 1,
           env_encode = (\<lambda>t. Inr [Finite (real (length t))]),
           env_encode_batch = (\<lambda>ts. Inr (map (\<lambda>t. [Finite (real (length t))]) ts)),
           env_load_model = None,
           env_read_pages = (\<lambda>p. Inr []),
           env_generate = (\<lambda>p. Inr ''ok''),
           env_float32 = (\<lambda>x. x),
           env_l2sqr = exact_l2sqr\<rparr>"

definition mk_chunk :: "int \<Rightarrow> int \<Rightarrow> string \<Rightarrow> int \<Rightarrow> chunk" where
  "mk_chunk pdf_id user_id text idx =
     \<lparr>chunk_pdf_id = pdf_id, chunk_user_id = user_id, chunk_text = text, chunk_index = idx,
      chunk_page_number = 1, chunk_start_char = 0, chunk_end_char = int (length text),
      chunk_token_count = int (length text) div 4, chunk_vector_id = None\<rparr>"

definition world0 :: world where
  "world0 = \<lparr>pdf_table = [], chunk_table = [], next_chunk_id = 1, index_files = Map.empty,
             metadata_files = Map.empty, messages = [], embed_calls = 0, gen_calls = 0,
             status_log = []\<rparr>"

definition world_two_users :: world where
  "world_two_users = world0\<lparr>chunk_table := [(7, mk_chunk 3 1 ''a'' 0), (8, mk_chunk 4 2 ''bc'' 0)],
      next_chunk_id := 9\<rparr>"

definition belongs_to_document :: "world \<Rightarrow> int \<Rightarrow> int \<Rightarrow> bool" where
  "belongs_to_document w c d = (case chunk_get w c of Some r \<Rightarrow> chunk_pdf_id r = d | None \<Rightarrow> False)"

text \<open>An index of two vectors whose metadata file knows one slot only.\<close>

definition world_corrupt :: world where
  "world_corrupt = world0\<lparr>index_files := [1 \<mapsto> \<lparr>ix_d = 1, ix_xb = [ [Finite 0], [Finite 1] ]\<rparr>],
      metadata_files := [1 \<mapsto> [0 \<mapsto> 7] ]\<rparr>"

definition world_one_doc :: world where
  "world_one_doc = world0\<lparr>chunk_table := [(7, mk_chunk 3 1 ''a'' 0), (8, mk_chunk 3 1 ''bc'' 1)],
      next_chunk_id := 9\<rparr>"

definition world_two_docs :: world where
  "world_two_docs = world0\<lparr>chunk_table := [(7, mk_chunk 3 1 ''a'' 0), (8, mk_chunk 4 1 ''bc'' 0)],
      next_chunk_id := 9\<rparr>"

section \<open>Chunker (document/services/pdf_processor.py)\<close>

text \<open>
  Texts are lists of characters, one \<open>char\<close> per character of the Python string, the
  character being its code point; the texts of the model are those whose code points are
  below 256. \<^verbatim>\<open>str.strip\<close> and the regular expression class \<^verbatim>\<open>\s\<close> (on \<^verbatim>\<open>str\<close>, hence
  Unicode) remove the characters for which \<^verbatim>\<open>str.isspace\<close> holds: below 256 these are
  U+0009 to U+000D, U+001C to U+001F, the space, the next-line character U+0085 and the
  no-break space U+00A0.
\<close>

definition is_space :: "char \<Rightarrow> bool" where
  "is_space c \<longleftrightarrow> (of_char c :: nat) \<in> {9, 10, 11, 12, 13, 28, 29, 30, 31, 32, 133, 160}"

definition strip :: "string \<Rightarrow> string" where
  "strip s = rev (dropWhile is_space (rev (dropWhile is_space s)))"

text \<open>\<^verbatim>\<open>re.sub(r'\s+', ' ', text)\<close> and \<^verbatim>\<open>re.sub(r'\n+', '\n', text)\<close>: every maximal run of
  characters of the class becomes one replacement character.\<close>

fun collapse_runs :: "(char \<Rightarrow> bool) \<Rightarrow> char \<Rightarrow> string \<Rightarrow> string" where
  "collapse_runs P r [] = []"
| "collapse_runs P r [c] = (if P c then [r] else [c])"
| "collapse_runs P r (c # d # cs) =
     (if P c then (if P d then collapse_runs P r (d # cs) else r # collapse_runs P r (d # cs))
      else c # collapse_runs P r (d # cs))"

definition clean_text :: "string \<Rightarrow> string" where
  "clean_text text =
     (let text1 = collapse_runs is_space CHR '' '' text;
          text2 = collapse_runs (\<lambda>c. c = CHR 0x0A) (CHR 0x0A) text1
      in strip text2)"

definition extract_text_from_pdf :: "env \<Rightarrow> string \<Rightarrow> py_exception + (int \<times> string) list" where
  "extract_text_from_pdf e pdf_path =
     (case env_read_pages e pdf_path of
        Inl x \<Rightarrow> Inl (PyExc PlainException
          (E_acute @ ''chec de l'extraction de texte du PDF: '' @ exc_str x))
      | Inr raw_pages \<Rightarrow>
          Inr (zip (map (\<lambda>page_num. int page_num + 1) [0 ..< length raw_pages])
                   (map clean_text raw_pages)))"

text \<open>Python slicing \<^verbatim>\<open>xs[i:j]\<close>: a negative bound counts from the end, and both bounds
  are clamped to the list.\<close>

definition slice_bound :: "nat \<Rightarrow> int \<Rightarrow> nat" where
  "slice_bound n i = (if i < 0 then nat (max 0 (int n + i)) else min (nat i) n)"

definition py_slice :: "'a list \<Rightarrow> int \<Rightarrow> int \<Rightarrow> 'a list" where
  "py_slice xs i j =
     (let a = slice_bound (length xs) i; b = slice_bound (length xs) j
      in take (b - a) (drop a xs))"

definition sentence_endings :: "char list" where
  "sentence_endings = [CHR ''.'', CHR ''!'', CHR ''?'', CHR 0x0A]"

text \<open>The loop \<^verbatim>\<open>for i in range(len(search_text) - 1, -1, -1)\<close>: \<open>scan_back s n\<close> looks at
  the positions \<open>n - 1\<close> down to \<open>0\<close> and returns the first one that holds a sentence ending.\<close>

fun scan_back :: "string \<Rightarrow> nat \<Rightarrow> nat option" where
  "scan_back s 0 = None"
| "scan_back s (Suc i) = (if s ! i \<in> set sentence_endings then Some i else scan_back s i)"

definition find_sentence_boundary :: "string \<Rightarrow> int \<Rightarrow> int \<Rightarrow> int" where
  "find_sentence_boundary text position search_window =
     (let search_start = max 0 (position - search_window);
          search_end = min (int (length text)) (position + search_window);
          search_text = py_slice text search_start search_end
      in case scan_back search_text (length search_text) of
           Some i \<Rightarrow> search_start + int i + 1
         | None \<Rightarrow> position)"

fun get_page_for_position :: "int \<Rightarrow> (int \<times> int \<times> int) list \<Rightarrow> (int \<times> int \<times> int) list \<Rightarrow> py_exception + int" where
  "get_page_for_position position all_ranges [] =
     (if all_ranges = [] then Inl (PyExc IndexError ''list index out of range'')
      else Inr (fst (last all_ranges)))"
| "get_page_for_position position all_ranges ((page_num, start, end) # rest) =
     (if start \<le> position \<and> position < end then Inr page_num
      else get_page_for_position position all_ranges rest)"

definition estimate_tokens :: "string \<Rightarrow> int" where
  "estimate_tokens text = int (length text) div 4"

record chunk_draft =
  cd_text :: string
  cd_chunk_index :: int
  cd_page_number :: int
  cd_start_char :: int
  cd_end_char :: int
  cd_token_count :: int

text \<open>The first loop of \<^verbatim>\<open>create_chunks\<close>, over the pages sorted by page number: the
  concatenated text and the character range of every page.\<close>

fun page_ranges :: "(int \<times> string) list \<Rightarrow> string \<times> (int \<times> int \<times> int) list \<Rightarrow> string \<times> (int \<times> int \<times> int) list" where
  "page_ranges [] acc = acc"
| "page_ranges ((page_num, page_text) # rest) (full_text, ranges) =
     (let page_start = int (length full_text);
          full_text' = full_text @ page_text @ [CHR 0x0A];
          page_end = int (length full_text')
      in page_ranges rest (full_text', dict_set ranges page_num (page_start, page_end)))"

text \<open>One turn of the \<^verbatim>\<open>while\<close> loop of \<^verbatim>\<open>create_chunks\<close>: the loop ends (its test fails,
  it breaks, or the page lookup raises) or goes on with a new start, list of chunks and
  chunk index.\<close>

datatype chunk_step_result =
    Stop "py_exception + chunk_draft list"
  | Next int "chunk_draft list" int

definition advance :: "int \<Rightarrow> string \<Rightarrow> int \<Rightarrow> chunk_draft list \<Rightarrow> int \<Rightarrow> chunk_step_result" where
  "advance chunk_overlap full_text end chunks chunk_idx =
     (let start = end - chunk_overlap
      in if start \<le> 0 \<or> start \<ge> int (length full_text) then Stop (Inr chunks)
         else Next start chunks chunk_idx)"

definition chunk_step :: "int \<Rightarrow> int \<Rightarrow> string \<Rightarrow> (int \<times> int \<times> int) list \<Rightarrow> int \<Rightarrow> chunk_draft list \<Rightarrow> int \<Rightarrow> chunk_step_result" where
  "chunk_step chunk_size chunk_overlap full_text ranges start chunks chunk_idx =
     (if \<not> start < int (length full_text) then Stop (Inr chunks)
      else
        let end0 = start + chunk_size;
            end = (if end0 < int (length full_text)
                   then (let sentence_end = find_sentence_boundary full_text end0 100
                         in if sentence_end > start then sentence_end else end0)
                   else end0);
            chunk_text = strip (py_slice full_text start end)
        in if chunk_text \<noteq> [] then
             (let chunk_middle = start + (end - start) div 2
              in case get_page_for_position chunk_middle ranges ranges of
                   Inl x \<Rightarrow> Stop (Inl x)
                 | Inr page_num \<Rightarrow>
                     advance chunk_overlap full_text end
                       (chunks @ [\<lparr>cd_text = chunk_text, cd_chunk_index = chunk_idx,
                                   cd_page_number = page_num, cd_start_char = start,
                                   cd_end_char = end,
                                   cd_token_count = estimate_tokens chunk_text\<rparr>])
                       (chunk_idx + 1))
           else advance chunk_overlap full_text end chunks chunk_idx)"

text \<open>The \<^verbatim>\<open>while\<close> loop, with fuel: \<open>None\<close> when the loop has not ended after \<open>fuel\<close>
  turns.\<close>

fun chunk_loop :: "int \<Rightarrow> int \<Rightarrow> string \<Rightarrow> (int \<times> int \<times> int) list \<Rightarrow> nat \<Rightarrow> int \<Rightarrow> chunk_draft list \<Rightarrow> int \<Rightarrow> (py_exception + chunk_draft list) option" where
  "chunk_loop chunk_size chunk_overlap full_text ranges 0 start chunks chunk_idx = None"
| "chunk_loop chunk_size chunk_overlap full_text ranges (Suc fuel) start chunks chunk_idx =
     (case chunk_step chunk_size chunk_overlap full_text ranges start chunks chunk_idx of
        Stop r \<Rightarrow> Some r
      | Next start' chunks' chunk_idx' \<Rightarrow>
          chunk_loop chunk_size chunk_overlap full_text ranges fuel start' chunks' chunk_idx')"

definition create_chunks :: "int \<Rightarrow> int \<Rightarrow> nat \<Rightarrow> (int \<times> string) list \<Rightarrow> (py_exception + chunk_draft list) option" where
  "create_chunks chunk_size chunk_overlap fuel page_texts =
     (let (full_text, ranges) = page_ranges (sort_key fst page_texts) ([], [])
      in chunk_loop chunk_size chunk_overlap full_text ranges fuel 0 [] 0)"

definition looping_page :: string where
  "looping_page = replicate 9 CHR ''a'' @ ''.'' @ replicate 120 CHR ''a''"

definition looping_text :: string where
  "looping_text = looping_page @ [CHR 0x0A]"


section \<open>Ingestion pipeline (document/services/pdf_processor.py, document/tasks.py)\<close>

text \<open>
  \<^verbatim>\<open>pdf_file.save()\<close> writes the in-memory object to its row; the status written is recorded
  in \<open>status_log\<close>. The error payload \<^verbatim>\<open>metadata = {'error': msg}\<close> is the message.
\<close>

definition pdf_save :: "int \<Rightarrow> pdf_file \<Rightarrow> world \<Rightarrow> world" where
  "pdf_save pdf_id pdf w =
     w\<lparr>pdf_table := dict_set (pdf_table w) pdf_id pdf,
        status_log := status_log w @ [(pdf_id, pdf_processing_status pdf)]\<rparr>"

definition pdf_get :: "world \<Rightarrow> int \<Rightarrow> pdf_file option" where
  "pdf_get w pdf_id = map_of (pdf_table w) pdf_id"

text \<open>\<^verbatim>\<open>Chunk.objects.create\<close> for every chunk of \<^verbatim>\<open>chunk_data\<close>, in order: each row gets the
  next automatic id.\<close>

fun create_chunk_rows :: "int \<Rightarrow> int \<Rightarrow> chunk_draft list \<Rightarrow> (int \<times> chunk) list \<times> world \<Rightarrow> (int \<times> chunk) list \<times> world" where
  "create_chunk_rows pdf_id user_id [] acc = acc"
| "create_chunk_rows pdf_id user_id (chunk_info # rest) (chunk_objects, w) =
     (let cid = next_chunk_id w;
          c = \<lparr>chunk_pdf_id = pdf_id, chunk_user_id = user_id, chunk_text = cd_text chunk_info,
               chunk_index = cd_chunk_index chunk_info,
               chunk_page_number = cd_page_number chunk_info,
               chunk_start_char = cd_start_char chunk_info,
               chunk_end_char = cd_end_char chunk_info,
               chunk_token_count = cd_token_count chunk_info, chunk_vector_id = None\<rparr>;
          w' = w\<lparr>chunk_table := chunk_table w @ [(cid, c)], next_chunk_id := cid + 1\<rparr>
      in create_chunk_rows pdf_id user_id rest (chunk_objects @ [(cid, c)], w'))"

text \<open>The \<^verbatim>\<open>except\<close> branch of \<^verbatim>\<open>process_and_save_chunks\<close>: mark the document failed,
  record the cause, save, raise again.\<close>

definition mark_failed :: "int \<Rightarrow> pdf_file \<Rightarrow> py_exception \<Rightarrow> world \<Rightarrow> pdf_file \<times> world" where
  "mark_failed pdf_id pdf x w =
     (let pdf' = pdf\<lparr>pdf_processing_status := Failed, pdf_metadata := Some (exc_str x)\<rparr>
      in (pdf', pdf_save pdf_id pdf' w))"

text \<open>
  \<^verbatim>\<open>process_and_save_chunks\<close>: the result (the created chunks, or the exception raised
  again), the in-memory document object as the call leaves it, and the world. \<open>None\<close> when
  the chunking loop does not end within \<open>fuel\<close> turns.
\<close>

definition process_and_save_chunks :: "env \<Rightarrow> int \<Rightarrow> int \<Rightarrow> nat \<Rightarrow> world \<Rightarrow> int \<Rightarrow> pdf_file \<Rightarrow> ((py_exception + (int \<times> chunk) list) \<times> pdf_file \<times> world) option" where
  "process_and_save_chunks e chunk_size chunk_overlap fuel w pdf_id pdf_file =
     (let pdf1 = pdf_file\<lparr>pdf_processing_status := Processing\<rparr>;
          w1 = pdf_save pdf_id pdf1 w
      in case extract_text_from_pdf e (pdf_file_path pdf1) of
           Inl x \<Rightarrow> (let (pdf', w') = mark_failed pdf_id pdf1 x w1 in Some (Inl x, pdf', w'))
         | Inr page_texts \<Rightarrow>
             (let pdf2 = pdf1\<lparr>pdf_page_count := Some (int (length page_texts))\<rparr>
              in case create_chunks chunk_size chunk_overlap fuel page_texts of
                   None \<Rightarrow> None
                 | Some (Inl x) \<Rightarrow>
                     (let (pdf', w') = mark_failed pdf_id pdf2 x w1 in Some (Inl x, pdf', w'))
                 | Some (Inr chunk_data) \<Rightarrow>
                     (let (chunk_objects, w2) =
                            create_chunk_rows pdf_id (pdf_user_id pdf2) chunk_data ([], w1);
                          pdf3 = pdf2\<lparr>pdf_total_chunks := int (length chunk_objects),
                                      pdf_processing_status := Completed\<rparr>;
                          w3 = pdf_save pdf_id pdf3 w2
                      in Some (Inr chunk_objects, pdf3, w3))))"

datatype task_return =
    ReturnNone
  | ReturnError string
  | ReturnCompleted int int

definition no_text_error :: string where
  "no_text_error = ''Aucun texte n'a pu '' @ e_circ @ ''tre extrait du PDF''"

text \<open>The handler \<^verbatim>\<open>except Exception\<close> of the task: fetch the document again, mark it
  failed with the cause (doing nothing if that fails), raise again.\<close>

definition task_failed :: "int \<Rightarrow> py_exception \<Rightarrow> world \<Rightarrow> (py_exception + task_return) \<times> world" where
  "task_failed pdf_id x w =
     (case pdf_get w pdf_id of
        Some pdf_file \<Rightarrow>
          (Inl x, pdf_save pdf_id
                    (pdf_file\<lparr>pdf_processing_status := Failed, pdf_metadata := Some (exc_str x)\<rparr>) w)
      | None \<Rightarrow> (Inl x, w))"

text \<open>
  \<^verbatim>\<open>process_pdf_async\<close>, with the chunk size 800 and the overlap 100 that the task
  passes. \<^verbatim>\<open>get_embedding_service\<close> constructs the process-wide embedding service when
  there is none yet, which raises when the model cannot be loaded.
\<close>

definition process_pdf_async :: "env \<Rightarrow> nat \<Rightarrow> world \<Rightarrow> int \<Rightarrow> ((py_exception + task_return) \<times> world) option" where
  "process_pdf_async e fuel w pdf_id =
     (case pdf_get w pdf_id of
        None \<Rightarrow> Some (Inr (ReturnError (''PDF avec id '' @ str_int pdf_id @ '' introuvable'')), w)
      | Some pdf_file \<Rightarrow>
          (case process_and_save_chunks e 800 100 fuel w pdf_id pdf_file of
             None \<Rightarrow> None
           | Some (Inl x, pdf1, w1) \<Rightarrow> Some (task_failed pdf_id x w1)
           | Some (Inr chunks, pdf1, w1) \<Rightarrow>
               if chunks = [] then
                 (let pdf2 = pdf1\<lparr>pdf_processing_status := Failed,
                                  pdf_metadata := Some no_text_error\<rparr>
                  in Some (Inr ReturnNone, pdf_save pdf_id pdf2 w1))
               else
                 (case env_load_model e of
                    Some x \<Rightarrow> Some (task_failed pdf_id x w1)
                  | None \<Rightarrow>
                 (case embed_chunks e w1 chunks of
                    (Inl x, w2) \<Rightarrow> Some (task_failed pdf_id x w2)
                  | (Inr chunk_embeddings, w2) \<Rightarrow>
                      (case add_embeddings e w2 (pdf_user_id pdf1) chunk_embeddings of
                         (Inl x, w3) \<Rightarrow> Some (task_failed pdf_id x w3)
                       | (Inr u, w3) \<Rightarrow>
                           (let pdf2 = pdf1\<lparr>pdf_processing_status := Completed\<rparr>
                            in Some (Inr (ReturnCompleted pdf_id (int (length chunks))),
                                     pdf_save pdf_id pdf2 w3)))))))"

definition mk_pdf :: "int \<Rightarrow> string \<Rightarrow> status \<Rightarrow> pdf_file" where
  "mk_pdf user_id path st =
     \<lparr>pdf_user_id = user_id, pdf_original_filename = ''doc.pdf'', pdf_file_path = path,
      pdf_upload_date = 0, pdf_processing_status = st, pdf_page_count = None, pdf_total_chunks = 0,
      pdf_metadata = None\<rparr>"

definition world_pending :: world where
  "world_pending = world0\<lparr>pdf_table := [(1, mk_pdf 1 ''blank.pdf'' Pending)]\<rparr>"

definition env_blank :: env where
  "env_blank = env0\<lparr>env_read_pages := (\<lambda>p. Inr [''   ''])\<rparr>"





section \<open>Retrieval orchestrator (chat/services/rag_service.py)\<close>

record source =
  src_pdf_id :: int
  src_pdf_filename :: string
  src_page_number :: int
  src_chunk_text :: string
  src_chunk_id :: int

record answer =
  ans_answer :: string
  ans_sources :: "source list"
  ans_chunk_ids :: "int list"

definition no_information_answer :: string where
  "no_information_answer =
     ''Je n'ai pas pu trouver d'informations pertinentes dans vos documents pour r'' @
     e_acute @ ''pondre '' @ a_grave @ '' cette question.''"

definition no_information_in_documents_answer :: string where
  "no_information_in_documents_answer =
     ''Aucune information pertinente trouv'' @ e_acute @ ''e dans les documents sp'' @
     e_acute @ ''cifi'' @ e_acute @ ''s.''"

definition answer_error_prefix :: string where
  "answer_error_prefix = ''Erreur lors de la g'' @ e_acute @ ''n'' @ e_acute @ ''ration de la r'' @ e_acute @
     ''ponse: ''"


definition mindmap_error_prefix :: string where
  "mindmap_error_prefix = ''Erreur lors de la g'' @ e_acute @ ''n'' @ e_acute @ ''ration de la carte mentale: ''"

text \<open>
  \<^verbatim>\<open>self.client.models.generate_content(**kwargs)\<close>: a Python call with keyword arguments
  only. A keyword that the method does not have, or a required one that is missing, is a
  \<^verbatim>\<open>TypeError\<close> before the generation model is reached; otherwise the model is called once on
  \<^verbatim>\<open>contents\<close>, and the call is counted in \<open>gen_calls\<close>.
\<close>

definition models_generate_content :: "env \<Rightarrow> world \<Rightarrow> (string \<times> string) list \<Rightarrow> (py_exception + string) \<times> world" where
  "models_generate_content e w kwargs =
     (case filter (\<lambda>k. k \<notin> set [''model'', ''contents'', ''config'']) (map fst kwargs) of
        k # ks \<Rightarrow> (Inl (PyExc TypeError
                     (''generate_content() got an unexpected keyword argument '' @
                      [CHR 0x27] @ k @ [CHR 0x27])), w)
      | [] \<Rightarrow>
          (case (map_of kwargs ''model'', map_of kwargs ''contents'') of
             (Some model, Some contents) \<Rightarrow>
               (env_generate e contents, w\<lparr>gen_calls := Suc (gen_calls w)\<rparr>)
           | other \<Rightarrow> (Inl (PyExc TypeError
                     ''generate_content() missing required keyword-only argument''), w)))"

definition model_name :: string where
  "model_name = ''gemini-2.5-flash''"

text \<open>\<^verbatim>\<open>chunk.pdf\<close> follows the foreign key to the document row.\<close>

definition chunk_pdf :: "world \<Rightarrow> chunk \<Rightarrow> py_exception + pdf_file" where
  "chunk_pdf w c =
     (case pdf_get w (chunk_pdf_id c) of
        Some p \<Rightarrow> Inr p
      | None \<Rightarrow> Inl (PyExc DoesNotExist ''PDFFile matching query does not exist.''))"

fun context_parts :: "world \<Rightarrow> nat \<Rightarrow> (int \<times> chunk) list \<Rightarrow> py_exception + string list" where
  "context_parts w i [] = Inr []"
| "context_parts w i (r # rest) =
     (case chunk_pdf w (snd r) of
        Inl x \<Rightarrow> Inl x
      | Inr p \<Rightarrow>
          (case context_parts w (Suc i) rest of
             Inl x \<Rightarrow> Inl x
           | Inr parts \<Rightarrow>
               Inr ((''[Source '' @ str_nat i @ '' - '' @ pdf_original_filename p @ '', Page '' @
                     str_int (chunk_page_number (snd r)) @ '']'' @ [CHR 0x0A] @
                     chunk_text (snd r) @ [CHR 0x0A]) # parts)))"

fun join :: "string \<Rightarrow> string list \<Rightarrow> string" where
  "join sep [] = []"
| "join sep [x] = x"
| "join sep (x # y # ys) = x @ sep @ join sep (y # ys)"

definition build_context :: "world \<Rightarrow> (int \<times> chunk) list \<Rightarrow> py_exception + string" where
  "build_context w chunks =
     (case context_parts w 1 chunks of
        Inl x \<Rightarrow> Inl x
      | Inr parts \<Rightarrow> Inr (join [CHR 0x0A] parts))"

definition build_prompt :: "string \<Rightarrow> string \<Rightarrow> string" where
  "build_prompt question context =
     (''Vous '' @ e_circ @ ''tes un assistant IA utile qui r'' @ e_acute @
      ''pond aux questions bas'' @ e_acute @ ''es UNIQUEMENT sur le contexte fourni '' @
      a_grave @ '' partir des documents PDF.'' @ [CHR 0x0A] @ [CHR 0x0A] @
      ''Contexte des documents:'' @ [CHR 0x0A]) @
     context @
     ([CHR 0x0A] @ [CHR 0x0A] @ ''Question de l'utilisateur: '') @
     question @
     ([CHR 0x0A] @ [CHR 0x0A] @ ''Instructions:'' @ [CHR 0x0A] @ ''1. R'' @ e_acute @
      ''pondez '' @ a_grave @
      '' la question en utilisant UNIQUEMENT les informations fournies dans le contexte ci-dessus'' @
      [CHR 0x0A] @ ''2. Si le contexte ne contient pas suffisamment d'informations pour r'' @
      e_acute @ ''pondre '' @ a_grave @ '' la question, dites-le clairement'' @ [CHR 0x0A] @
      ''3. Soyez concis et pr'' @ e_acute @ ''cis'' @ [CHR 0x0A] @ ''4. Si vous r'' @
      e_acute @ ''f'' @ e_acute @ ''rencez des informations sp'' @ e_acute @
      ''cifiques, mentionnez de quelle source elles proviennent'' @ [CHR 0x0A] @
      ''5. Ne fabriquez pas et n'inf'' @ e_acute @
      ''rez pas d'informations qui ne sont pas explicitement mentionn'' @ e_acute @
      ''es dans le contexte'' @ [CHR 0x0A] @ [CHR 0x0A] @ ''R'' @ e_acute @ ''ponse:'')"

fun prepare_sources :: "world \<Rightarrow> (int \<times> chunk) list \<Rightarrow> py_exception + source list" where
  "prepare_sources w [] = Inr []"
| "prepare_sources w (r # rest) =
     (case chunk_pdf w (snd r) of
        Inl x \<Rightarrow> Inl x
      | Inr p \<Rightarrow>
          (case prepare_sources w rest of
             Inl x \<Rightarrow> Inl x
           | Inr sources \<Rightarrow>
               Inr (\<lparr>src_pdf_id = chunk_pdf_id (snd r),
                     src_pdf_filename = pdf_original_filename p,
                     src_page_number = chunk_page_number (snd r),
                     src_chunk_text = take 200 (chunk_text (snd r)) @ ''...'',
                     src_chunk_id = fst r\<rparr> # sources)))"

text \<open>The two messages appended to the transcript; the update of the session's time
  stamp has no counterpart in the world.\<close>

definition save_to_chat_history :: "world \<Rightarrow> int \<Rightarrow> int \<Rightarrow> string \<Rightarrow> string \<Rightarrow> int list \<Rightarrow> world" where
  "save_to_chat_history w session_id user_id question answer chunk_ids =
     w\<lparr>messages := messages w @
        [\<lparr>msg_session_id = session_id, msg_user_id = user_id, msg_role = ''user'',
          msg_content = question, msg_chunk_ids = []\<rparr>,
         \<lparr>msg_session_id = session_id, msg_user_id = user_id, msg_role = ''assistant'',
          msg_content = answer, msg_chunk_ids = chunk_ids\<rparr>]\<rparr>"

text \<open>
  Steps 3 of \<^verbatim>\<open>ask_question\<close>: the chunks of the user among the ids found (and of the given
  documents, when a non-empty list of them is given), put back in the order of the search.
\<close>

definition ordered_chunks :: "world \<Rightarrow> int \<Rightarrow> int list \<Rightarrow> int list option \<Rightarrow> (int \<times> chunk) list" where
  "ordered_chunks w user_id chunk_ids pdf_ids =
     (let chunks = chunks_filter w (\<lambda>c. chunk_user_id c = user_id);
          chunks1 = filter (\<lambda>r. fst r \<in> set chunk_ids) chunks;
          chunks2 = (case pdf_ids of
                       None \<Rightarrow> chunks1
                     | Some ids \<Rightarrow> if ids = [] then chunks1
                                   else filter (\<lambda>r. chunk_pdf_id (snd r) \<in> set ids) chunks1);
          chunks_dict = foldl (\<lambda>d r. dict_set d (fst r) (snd r)) [] chunks2
      in List.map_filter (\<lambda>cid. map_option (\<lambda>c. (cid, c)) (map_of chunks_dict cid)) chunk_ids)"

definition ask_question :: "env \<Rightarrow> world \<Rightarrow> int \<Rightarrow> string \<Rightarrow> int option \<Rightarrow> int list option \<Rightarrow> int \<Rightarrow> (py_exception + answer) \<times> world" where
  "ask_question e w user_id question session_id pdf_ids top_k =
     (case generate_query_embedding e w question of
        (Inl x, w1) \<Rightarrow> (Inl x, w1)
      | (Inr query_embedding, w1) \<Rightarrow>
     (case search e w1 user_id query_embedding top_k of
        Inl x \<Rightarrow> (Inl x, w1)
      | Inr chunk_ids \<Rightarrow>
     if chunk_ids = [] then
       (Inr \<lparr>ans_answer = no_information_answer, ans_sources = [], ans_chunk_ids = []\<rparr>, w1)
     else
       let ordered = ordered_chunks w1 user_id chunk_ids pdf_ids in
       if ordered = [] then
         (Inr \<lparr>ans_answer = no_information_in_documents_answer, ans_sources = [],
               ans_chunk_ids = []\<rparr>, w1)
       else
     (case build_context w1 ordered of
        Inl x \<Rightarrow> (Inl x, w1)
      | Inr context \<Rightarrow>
     (case models_generate_content e w1
             [(''model'', model_name), (''contents'', build_prompt question context)] of
        (Inl x, w2) \<Rightarrow>
          (Inr \<lparr>ans_answer = answer_error_prefix @ exc_str x, ans_sources = [],
                ans_chunk_ids = []\<rparr>, w2)
      | (Inr answer, w2) \<Rightarrow>
     (case prepare_sources w2 ordered of
        Inl x \<Rightarrow> (Inl x, w2)
      | Inr sources \<Rightarrow>
          (let w3 = (case session_id of
                       None \<Rightarrow> w2
                     | Some sid \<Rightarrow> if sid = 0 then w2
                                   else save_to_chat_history w2 sid user_id question answer
                                          (map fst ordered))
           in (Inr \<lparr>ans_answer = answer, ans_sources = sources,
                     ans_chunk_ids = map fst ordered\<rparr>, w3)))))))"

text \<open>\<^verbatim>\<open>order_by('chunk_index')\<close> replaces the default ordering of the table.\<close>

definition pdf_chunks_by_index :: "world \<Rightarrow> int \<Rightarrow> int \<Rightarrow> (int \<times> chunk) list" where
  "pdf_chunks_by_index w pdf_id user_id =
     sort_key (\<lambda>r. chunk_index (snd r))
       (filter (\<lambda>r. chunk_pdf_id (snd r) = pdf_id \<and> chunk_user_id (snd r) = user_id) (chunk_table w))"

definition combined_text :: "(int \<times> chunk) list \<Rightarrow> string" where
  "combined_text chunks = concat (map (\<lambda>r. chunk_text (snd r) @ [CHR 0x0A, CHR 0x0A]) chunks)"


datatype mindmap = MindmapError string | MindmapStructure string

definition generate_mindmap :: "env \<Rightarrow> world \<Rightarrow> int \<Rightarrow> int \<Rightarrow> (py_exception + mindmap) \<times> world" where
  "generate_mindmap e w user_id pdf_id =
     (let chunks = pdf_chunks_by_index w pdf_id user_id in
      if chunks = [] then (Inr (MindmapError (''Aucun contenu trouv'' @ e_acute)), w)
      else
        let prompt = (''Bas'' @ e_acute @ '' sur le contenu du document suivant, cr'' @
                      e_acute @ ''ez une structure de carte mentale hi'' @ e_acute @
                      ''rarchique.'' @ [CHR 0x0A] @
                      ''Identifiez les sujets principaux et leurs sous-sujets.'' @
                      [CHR 0x0A] @ [CHR 0x0A] @ ''Contenu du document:'' @ [CHR 0x0A]) @
                     combined_text (take 15 chunks) @
                     ([CHR 0x0A] @ [CHR 0x0A] @
                      ''Veuillez fournir la carte mentale au format JSON suivant:'' @
                      [CHR 0x0A] @ ''{'' @ [CHR 0x0A] @ ''    '' @ [CHR 0x22] @
                      ''central_topic'' @ [CHR 0x22] @ '': '' @ [CHR 0x22] @
                      ''Sujet principal du document'' @ [CHR 0x22] @ '','' @ [CHR 0x0A] @
                      ''    '' @ [CHR 0x22] @ ''branches'' @ [CHR 0x22] @ '': ['' @
                      [CHR 0x0A] @ ''        {'' @ [CHR 0x0A] @ ''            '' @
                      [CHR 0x22] @ ''topic'' @ [CHR 0x22] @ '': '' @ [CHR 0x22] @
                      ''Branche 1'' @ [CHR 0x22] @ '','' @ [CHR 0x0A] @ ''            '' @
                      [CHR 0x22] @ ''subtopics'' @ [CHR 0x22] @ '': ['' @ [CHR 0x22] @
                      ''Sous-sujet 1.1'' @ [CHR 0x22] @ '', '' @ [CHR 0x22] @
                      ''Sous-sujet 1.2'' @ [CHR 0x22] @ '']'' @ [CHR 0x0A] @ ''        },'' @
                      [CHR 0x0A] @ ''        {'' @ [CHR 0x0A] @ ''            '' @
                      [CHR 0x22] @ ''topic'' @ [CHR 0x22] @ '': '' @ [CHR 0x22] @
                      ''Branche 2'' @ [CHR 0x22] @ '','' @ [CHR 0x0A] @ ''            '' @
                      [CHR 0x22] @ ''subtopics'' @ [CHR 0x22] @ '': ['' @ [CHR 0x22] @
                      ''Sous-sujet 2.1'' @ [CHR 0x22] @ '', '' @ [CHR 0x22] @
                      ''Sous-sujet 2.2'' @ [CHR 0x22] @ '']'' @ [CHR 0x0A] @ ''        }'' @
                      [CHR 0x0A] @ ''    ]'' @ [CHR 0x0A] @ ''}'' @ [CHR 0x0A] @ [CHR 0x0A] @
                      ''JSON de la carte mentale:'')
        in case models_generate_content e w [(''model'', model_name), (''ontents'', prompt)] of
             (Inr text, w1) \<Rightarrow> (Inr (MindmapStructure text), w1)
           | (Inl x, w1) \<Rightarrow> (Inr (MindmapError (mindmap_error_prefix @ exc_str x)), w1))"



lemma add_loop_Cons:
  "add_loop n i (cid # rest) (md, w) = add_loop n (Suc i) rest (md(n + i \<mapsto> cid), add_step (n + i) cid w)"
  by (simp add: Let_def add_step_def)

lemma add_step_fields:
  "index_files (add_step idx cid w) = index_files w"
  "metadata_files (add_step idx cid w) = metadata_files w"
  "pdf_table (add_step idx cid w) = pdf_table w"
  "embed_calls (add_step idx cid w) = embed_calls w"
  "gen_calls (add_step idx cid w) = gen_calls w"
  "messages (add_step idx cid w) = messages w"
  "status_log (add_step idx cid w) = status_log w"
  "next_chunk_id (add_step idx cid w) = next_chunk_id w"
  by (simp_all add: add_step_def chunk_save_def split: option.splits)

lemma add_loop_fields:
  "add_loop n i ids (md, w) = (md', w') \<Longrightarrow>
     index_files w' = index_files w \<and> metadata_files w' = metadata_files w \<and>
     pdf_table w' = pdf_table w \<and> embed_calls w' = embed_calls w \<and> gen_calls w' = gen_calls w
     \<and> messages w' = messages w \<and> status_log w' = status_log w \<and> next_chunk_id w' = next_chunk_id w"
proof (induction ids arbitrary: i md w)
  case Nil
  then show ?case by simp
next
  case (Cons cid rest)
  from Cons.IH[OF Cons.prems[unfolded add_loop_Cons] ] show ?case
    by (simp add: add_step_fields)
qed

lemma owner_view_chunk_save:
  assumes "chunk_get w cid = Some c" "chunk_pdf_id c' = chunk_pdf_id c" "chunk_user_id c' = chunk_user_id c"
    "distinct (map fst (chunk_table w))"
  shows "owner_view (chunk_save cid c' w) = owner_view w"
proof -
  have "\<And>b. (cid, b) \<in> set (chunk_table w) \<Longrightarrow> b = c"
    using assms(1,4) by (simp add: chunk_get_def)
  then show ?thesis using assms(2,3)
    unfolding owner_view_def chunk_save_def by auto
qed

lemma owner_view_fst: "map fst (owner_view w) = map fst (chunk_table w)"
  by (simp add: owner_view_def comp_def)

lemma map_of_owner_rows:
  "map_of (map (\<lambda>r. (fst r, chunk_pdf_id (snd r), chunk_user_id (snd r))) xs) cid
      = map_option (\<lambda>c. (chunk_pdf_id c, chunk_user_id c)) (map_of xs cid)"
  by (induction xs) auto

lemma owner_view_get:
  "map_of (owner_view w) cid = map_option (\<lambda>c. (chunk_pdf_id c, chunk_user_id c)) (chunk_get w cid)"
  unfolding owner_view_def chunk_get_def by (rule map_of_owner_rows)

lemma add_step_owner_view:
  "distinct (map fst (chunk_table w)) \<Longrightarrow> owner_view (add_step idx cid w) = owner_view w"
proof (cases "chunk_get w cid")
  case None
  then show ?thesis by (simp add: add_step_def)
next
  case (Some c)
  assume d: "distinct (map fst (chunk_table w))"
  have "owner_view (chunk_save cid (c\<lparr>chunk_vector_id := Some (str_nat idx)\<rparr>) w) = owner_view w"
    by (rule owner_view_chunk_save[OF Some _ _ d]) simp_all
  with Some show ?thesis by (simp add: add_step_def)
qed

lemma add_loop_owner_view:
  "distinct (map fst (chunk_table w)) \<Longrightarrow> add_loop n i ids (md, w) = (md', w') \<Longrightarrow> owner_view w' = owner_view w"
proof (induction ids arbitrary: i md w)
  case Nil
  then show ?case by simp
next
  case (Cons cid rest)
  have ov: "owner_view (add_step (n + i) cid w) = owner_view w"
    using Cons.prems(1) by (rule add_step_owner_view)
  then have "map fst (chunk_table (add_step (n + i) cid w)) = map fst (chunk_table w)"
    by (metis owner_view_fst)
  then have d: "distinct (map fst (chunk_table (add_step (n + i) cid w)))"
    using Cons.prems(1) by simp
  from Cons.IH[OF d Cons.prems(2)[unfolded add_loop_Cons] ] ov show ?case by simp
qed

lemma add_loop_metadata:
  "add_loop n i ids (md, w) = (md', w') \<Longrightarrow>
     md' s = (if n + i \<le> s \<and> s < n + i + length ids then Some (ids ! (s - (n + i))) else md s)"
proof (induction ids arbitrary: i md w)
  case Nil
  then show ?case by auto
next
  case (Cons cid rest)
  from Cons.IH[OF Cons.prems[unfolded add_loop_Cons] ]
  have ih: "md' s = (if n + Suc i \<le> s \<and> s < n + Suc i + length rest
                 then Some (rest ! (s - (n + Suc i))) else (md(n + i \<mapsto> cid)) s)" .
  show ?case
  proof (cases "s = n + i")
    case True
    with ih show ?thesis by simp
  next
    case False
    have "n + Suc i \<le> s \<Longrightarrow> s - (n + i) = Suc (s - (n + Suc i))" by arith
    with ih False show ?thesis by auto
  qed
qed

lemma set_chunks_filter: "set (chunks_filter w P) = {r \<in> set (chunk_table w). P (snd r)}"
  by (auto simp: chunks_filter_def chunk_ordering_def)

lemma dict_set_keys: "fst ` set (dict_set d k v) = insert k (fst ` set d)"
  by (induction d) auto

lemma foldl_dict_set_keys:
  "fst ` set (foldl (\<lambda>d (cid, v). dict_set d cid v) acc kvs) = fst ` set acc \<union> fst ` set kvs"
proof (induction kvs arbitrary: acc)
  case Nil
  show ?case by simp
next
  case (Cons kv kvs)
  obtain k v where kv: "kv = (k, v)" by (cases kv)
  have "fst ` set (foldl (\<lambda>d (cid, v). dict_set d cid v) (dict_set acc k v) kvs)
      = fst ` set (dict_set acc k v) \<union> fst ` set kvs"
    by (rule Cons.IH)
  then show ?case unfolding kv dict_set_keys by simp
qed

lemma embed_chunks_ok:
  assumes "embed_chunks e w cs = (Inr d, w1)"
  shows "fst ` set d \<subseteq> fst ` set cs" and "w1 = w\<lparr>embed_calls := Suc (embed_calls w)\<rparr>"
proof -
  show "w1 = w\<lparr>embed_calls := Suc (embed_calls w)\<rparr>"
    using assms by (auto simp: embed_chunks_def Let_def split: if_splits sum.splits)
  show "fst ` set d \<subseteq> fst ` set cs"
  proof (cases "cs = []")
    case True
    with assms show ?thesis by (simp add: embed_chunks_def Let_def)
  next
    case False
    with assms obtain embs where
      d: "d = foldl (\<lambda>d (cid, v). dict_set d cid v) [] (zip (map fst cs) embs)"
      by (auto simp: embed_chunks_def Let_def split: sum.splits)
    have "fst ` set (zip (map fst cs) embs) \<subseteq> fst ` set cs"
      by (force dest: set_zip_leftD)
    then show ?thesis unfolding d foldl_dict_set_keys by simp
  qed
qed

lemma embed_chunks_world:
  "snd (embed_chunks e w cs) = w\<lparr>embed_calls := Suc (embed_calls w)\<rparr>"
  by (auto simp: embed_chunks_def Let_def split: sum.splits)

lemma owner_view_user:
  "owner_view w' = owner_view w \<Longrightarrow>
     map_option chunk_user_id (chunk_get w' c) = map_option chunk_user_id (chunk_get w c)"
proof -
  assume "owner_view w' = owner_view w"
  then have "map_option (\<lambda>c. (chunk_pdf_id c, chunk_user_id c)) (chunk_get w' c)
           = map_option (\<lambda>c. (chunk_pdf_id c, chunk_user_id c)) (chunk_get w c)"
    by (metis owner_view_get)
  then show ?thesis by (cases "chunk_get w' c"; cases "chunk_get w c") auto
qed

lemma owner_view_pdf:
  "owner_view w' = owner_view w \<Longrightarrow>
     map_option chunk_pdf_id (chunk_get w' c) = map_option chunk_pdf_id (chunk_get w c)"
proof -
  assume "owner_view w' = owner_view w"
  then have "map_option (\<lambda>c. (chunk_pdf_id c, chunk_user_id c)) (chunk_get w' c)
           = map_option (\<lambda>c. (chunk_pdf_id c, chunk_user_id c)) (chunk_get w c)"
    by (metis owner_view_get)
  then show ?thesis by (cases "chunk_get w' c"; cases "chunk_get w c") auto
qed

lemma owner_view_primary_key:
  "owner_view w' = owner_view w \<Longrightarrow> primary_key w' = primary_key w"
  unfolding primary_key_def by (metis owner_view_fst)

lemma load_user_index_metadata:
  "snd (load_user_index e w u) s = Some c \<Longrightarrow> \<exists>md. metadata_files w u = Some md \<and> md s = Some c"
  by (auto simp: load_user_index_def split: option.splits)

lemma search_ids:
  assumes "search e w u q k = Inr ids" "c \<in> set ids"
  shows "\<exists>md s. metadata_files w u = Some md \<and> md s = Some c"
proof -
  obtain ix md where l: "load_user_index e w u = (ix, md)" by (cases "load_user_index e w u")
  from assms l obtain slots where "ids = List.map_filter md slots"
    by (auto simp: search_def split: if_splits sum.splits)
  with assms(2) obtain s where "md s = Some c"
    by (auto simp: List.map_filter_def)
  with l load_user_index_metadata[of e w u s c] show ?thesis by auto
qed

text \<open>What add_embeddings does when the vectors are accepted, and when they are not.\<close>

lemma add_embeddings_Inr:
  assumes "load_user_index e w u = (ix, md)" "index_add e ix (map snd m) = Inr ix'"
    "add_loop (ntotal ix) 0 (map fst m) (md, w) = (md', w1)"
  shows "add_embeddings e w u m = (Inr (), save_user_index w1 u ix' md')"
  using assms by (simp add: add_embeddings_def Let_def)

lemma add_embeddings_Inl:
  assumes "load_user_index e w u = (ix, md)" "index_add e ix (map snd m) = Inl x"
  shows "add_embeddings e w u m = (Inl x, w)"
  using assms by (simp add: add_embeddings_def Let_def)

lemma add_embeddings_owner_view:
  assumes "primary_key w"
  shows "owner_view (snd (add_embeddings e w u m)) = owner_view w"
proof -
  obtain ix md where l: "load_user_index e w u = (ix, md)" by (cases "load_user_index e w u")
  show ?thesis
  proof (cases "index_add e ix (map snd m)")
    case (Inl x)
    with l show ?thesis by (simp add: add_embeddings_Inl)
  next
    case (Inr ix')
    obtain md' w1 where a: "add_loop (ntotal ix) 0 (map fst m) (md, w) = (md', w1)"
      by (cases "add_loop (ntotal ix) 0 (map fst m) (md, w)")
    have "owner_view w1 = owner_view w"
      using add_loop_owner_view[OF _ a] assms by (simp add: primary_key_def)
    then show ?thesis
      using add_embeddings_Inr[OF l Inr a] by (simp add: save_user_index_def owner_view_def)
  qed
qed

lemma add_embeddings_isolated:
  assumes pk: "primary_key w" and iso: "isolated w"
    and own: "\<forall>c \<in> fst ` set m. \<forall>r. chunk_get w c = Some r \<longrightarrow> chunk_user_id r = u"
  shows "isolated (snd (add_embeddings e w u m))"
proof -
  obtain ix md where l: "load_user_index e w u = (ix, md)" by (cases "load_user_index e w u")
  show ?thesis
  proof (cases "index_add e ix (map snd m)")
    case (Inl x)
    with l iso show ?thesis by (simp add: add_embeddings_Inl)
  next
    case (Inr ix')
    obtain md' w1 where a: "add_loop (ntotal ix) 0 (map fst m) (md, w) = (md', w1)"
      by (cases "add_loop (ntotal ix) 0 (map fst m) (md, w)")
    let ?w' = "save_user_index w1 u ix' md'"
    have ov: "owner_view ?w' = owner_view w"
      using add_loop_owner_view[OF _ a] pk by (simp add: primary_key_def save_user_index_def owner_view_def)
    have mf: "metadata_files ?w' = (metadata_files w)(u \<mapsto> md')"
      using add_loop_fields[OF a] by (simp add: save_user_index_def)
    have "isolated ?w'"
      unfolding isolated_def
    proof (intro allI impI)
      fix u' mdx s c r
      assume m1: "metadata_files ?w' u' = Some mdx" and m2: "mdx s = Some c"
        and g: "chunk_get ?w' c = Some r"
      from owner_view_user[OF ov, of c] g obtain r0 where
        g0: "chunk_get w c = Some r0" and ru: "chunk_user_id r0 = chunk_user_id r"
        by (cases "chunk_get w c") auto
      show "chunk_user_id r = u'"
      proof (cases "u' = u")
        case False
        with m1 mf have "metadata_files w u' = Some mdx" by simp
        with iso m2 g0 ru show ?thesis unfolding isolated_def by metis
      next
        case True
        with m1 mf have mdx: "mdx = md'" by simp
        from add_loop_metadata[OF a, of s] m2 mdx
        consider (new) "c \<in> set (map fst m)" | (old) "md s = Some c"
          by (auto split: if_splits)
        then show ?thesis
        proof cases
          case new
          with own g0 ru True show ?thesis by auto
        next
          case old
          with l load_user_index_metadata[of e w u s c] obtain mdo where
            "metadata_files w u = Some mdo" "mdo s = Some c" by auto
          with iso g0 ru True show ?thesis unfolding isolated_def by metis
        qed
      qed
    qed
    then show ?thesis using add_embeddings_Inr[OF l Inr a] by simp
  qed
qed

lemma delete_pdf_vectors_cases:
  obtains
    (no_chunks) "\<forall>r \<in> set (chunk_table w). \<not> (chunk_pdf_id (snd r) = d \<and> chunk_user_id (snd r) = u)"
      "delete_pdf_vectors e w d u = (Inr (), w)"
  | (none_left) "\<exists>r \<in> set (chunk_table w). chunk_pdf_id (snd r) = d \<and> chunk_user_id (snd r) = u"
      "\<forall>r \<in> set (chunk_table w). \<not> (chunk_user_id (snd r) = u \<and> chunk_pdf_id (snd r) \<noteq> d)"
      "delete_pdf_vectors e w d u = (Inr (), remove_index_files w u)"
  | (raised) x w1 where "delete_pdf_vectors e w d u = (Inl x, w1)"
      "w1 = w \<or> w1 = w\<lparr>embed_calls := Suc (embed_calls w)\<rparr>"
  | (rebuilt) ids ix' where
      "delete_pdf_vectors e w d u =
         (Inr (), save_user_index (w\<lparr>embed_calls := Suc (embed_calls w)\<rparr>) u ix'
                    (map_of (zip [0 ..< length ids] ids)))"
      "set ids \<subseteq> fst ` {r \<in> set (chunk_table w). chunk_user_id (snd r) = u \<and> chunk_pdf_id (snd r) \<noteq> d}"
      "\<exists>r \<in> set (chunk_table w). chunk_user_id (snd r) = u \<and> chunk_pdf_id (snd r) \<noteq> d"
proof -
  let ?pdf_chunks = "chunks_filter w (\<lambda>c. chunk_pdf_id c = d \<and> chunk_user_id c = u)"
  let ?rest = "chunks_filter w (\<lambda>c. chunk_user_id c = u \<and> chunk_pdf_id c \<noteq> d)"
  show thesis
  proof (cases "set (map fst ?pdf_chunks) = {}")
    case True
    then have "set ?pdf_chunks = {}" by simp
    then have "\<forall>r \<in> set (chunk_table w). \<not> (chunk_pdf_id (snd r) = d \<and> chunk_user_id (snd r) = u)"
      unfolding set_chunks_filter by blast
    moreover have "delete_pdf_vectors e w d u = (Inr (), w)"
      using True by (simp add: delete_pdf_vectors_def Let_def)
    ultimately show thesis by (rule no_chunks)
  next
    case False
    then have "set ?pdf_chunks \<noteq> {}" by simp
    then have ex: "\<exists>r \<in> set (chunk_table w). chunk_pdf_id (snd r) = d \<and> chunk_user_id (snd r) = u"
      unfolding set_chunks_filter by blast
    show thesis
    proof (cases "?rest = []")
      case True
      then have "set ?rest = {}" by simp
      then have "\<forall>r \<in> set (chunk_table w). \<not> (chunk_user_id (snd r) = u \<and> chunk_pdf_id (snd r) \<noteq> d)"
        unfolding set_chunks_filter by blast
      moreover have "delete_pdf_vectors e w d u = (Inr (), remove_index_files w u)"
        using False True by (simp add: delete_pdf_vectors_def Let_def)
      ultimately show thesis using ex none_left by blast
    next
      case rest: False
      then have "set ?rest \<noteq> {}" by simp
      then have ex_rest: "\<exists>r \<in> set (chunk_table w). chunk_user_id (snd r) = u \<and> chunk_pdf_id (snd r) \<noteq> d"
        unfolding set_chunks_filter by blast
      show thesis
      proof (cases "env_load_model e")
        case (Some x)
        then have "delete_pdf_vectors e w d u = (Inl x, w)"
          using False rest by (simp add: delete_pdf_vectors_def Let_def)
        then show thesis using raised by blast
      next
        case None
        obtain res w1 where ec: "embed_chunks e w ?rest = (res, w1)"
          by (cases "embed_chunks e w ?rest")
        have w1: "w1 = w\<lparr>embed_calls := Suc (embed_calls w)\<rparr>"
          using embed_chunks_world[of e w ?rest] ec by simp
        show thesis
        proof (cases res)
          case (Inl x)
          then have "delete_pdf_vectors e w d u = (Inl x, w1)"
            using False rest None ec by (simp add: delete_pdf_vectors_def Let_def)
          then show thesis using raised w1 by blast
        next
          case (Inr ce)
          have keys: "set (map fst ce) \<subseteq> fst ` {r \<in> set (chunk_table w). chunk_user_id (snd r) = u \<and> chunk_pdf_id (snd r) \<noteq> d}"
            using embed_chunks_ok(1)[OF ec[unfolded Inr] ] unfolding set_chunks_filter by simp
          show thesis
          proof (cases "index_add e \<lparr>ix_d = env_dimension e, ix_xb = []\<rparr> (map snd ce)")
            case (Inl x)
            then have "delete_pdf_vectors e w d u = (Inl x, w1)"
              using False rest None ec Inr by (simp add: delete_pdf_vectors_def Let_def)
            then show thesis using raised w1 by blast
          next
            case ok: (Inr ix')
            then have "delete_pdf_vectors e w d u =
               (Inr (), save_user_index w1 u ix' (map_of (zip [0 ..< length (map fst ce)] (map fst ce))))"
              using False rest None ec Inr by (simp add: delete_pdf_vectors_def Let_def)
            then show thesis using rebuilt[of ix' "map fst ce"] keys w1 ex_rest by blast
          qed
        qed
      qed
    qed
  qed
qed

lemma map_of_zip_upt_ran:
  "map_of (zip [0 ..< length ids] ids) s = Some c \<Longrightarrow> c \<in> set ids"
  by (auto dest!: map_of_SomeD set_zip_rightD)

lemma delete_pdf_vectors_owner_view:
  "owner_view (snd (delete_pdf_vectors e w d u)) = owner_view w"
  by (cases rule: delete_pdf_vectors_cases[of w d u e])
     (auto simp: owner_view_def remove_index_files_def save_user_index_def)

lemma delete_pdf_vectors_isolated:
  assumes pk: "primary_key w" and iso: "isolated w"
  shows "isolated (snd (delete_pdf_vectors e w d u))"
proof (cases rule: delete_pdf_vectors_cases[of w d u e])
  case no_chunks
  with iso show ?thesis by simp
next
  case none_left
  with iso show ?thesis
    by (auto simp: isolated_def remove_index_files_def chunk_get_def split: if_splits)
next
  case (raised x w1)
  with iso show ?thesis by (auto simp: isolated_def chunk_get_def)
next
  case (rebuilt ids ix')
  let ?w1 = "w\<lparr>embed_calls := Suc (embed_calls w)\<rparr>"
  let ?w' = "save_user_index ?w1 u ix' (map_of (zip [0 ..< length ids] ids))"
  have "isolated ?w'"
    unfolding isolated_def
  proof (intro allI impI)
    fix u' mdx s c r
    assume m1: "metadata_files ?w' u' = Some mdx" and m2: "mdx s = Some c"
      and g: "chunk_get ?w' c = Some r"
    from g have g0: "chunk_get w c = Some r" by (simp add: chunk_get_def save_user_index_def)
    show "chunk_user_id r = u'"
    proof (cases "u' = u")
      case False
      with m1 have "metadata_files w u' = Some mdx" by (simp add: save_user_index_def)
      with iso m2 g0 show ?thesis unfolding isolated_def by metis
    next
      case True
      with m1 have "mdx = map_of (zip [0 ..< length ids] ids)" by (simp add: save_user_index_def)
      with m2 have "map_of (zip [0 ..< length ids] ids) s = Some c" by simp
      then have "c \<in> set ids" by (rule map_of_zip_upt_ran)
      with rebuilt(2) obtain r' where "(c, r') \<in> set (chunk_table w)" "chunk_user_id r' = u"
        by auto
      moreover from this pk have "chunk_get w c = Some r'"
        by (simp add: chunk_get_def primary_key_def)
      ultimately show ?thesis using g0 True by simp
    qed
  qed
  with rebuilt(1) show ?thesis by simp
qed

lemmas eval_defs = run_ops_def add_embeddings_def load_user_index_def world_two_users_def world0_def env0_def
      index_add_def ntotal_def Let_def chunk_get_def chunk_save_def save_user_index_def search_def index_search_def
      List.map_filter_def mk_chunk_def belongs_to_user_def primary_key_def isolated_def
      slot_distance_def ranked_slots_def np_float32_def

lemma belongs_owner_view:
  "owner_view w' = owner_view w \<Longrightarrow> belongs_to_user w' c u = belongs_to_user w c u"
  using owner_view_user[of w' w c]
  by (cases "chunk_get w' c"; cases "chunk_get w c") (auto simp: belongs_to_user_def)

lemma no_foreign_chunk_owner_view:
  "owner_view w' = owner_view w \<Longrightarrow> no_foreign_chunk w' op = no_foreign_chunk w op"
proof -
  assume ov: "owner_view w' = owner_view w"
  show ?thesis by (cases op) (simp_all add: belongs_owner_view[OF ov])
qed

lemma apply_op_owner_view:
  "primary_key w \<Longrightarrow> owner_view (apply_op e w op) = owner_view w"
  by (cases op) (simp_all add: add_embeddings_owner_view delete_pdf_vectors_owner_view)

lemma apply_op_isolated:
  assumes "primary_key w" "isolated w" "no_foreign_chunk w op"
  shows "isolated (apply_op e w op)"
proof (cases op)
  case (Add u m)
  have "\<forall>c \<in> fst ` set m. \<forall>r. chunk_get w c = Some r \<longrightarrow> chunk_user_id r = u"
    using assms(3) unfolding Add by (auto simp: belongs_to_user_def)
  then show ?thesis unfolding Add using assms(1,2) by (simp add: add_embeddings_isolated)
next
  case (DeleteForDocument d u)
  then show ?thesis using assms(1,2) by (simp add: delete_pdf_vectors_isolated)
qed

lemma run_ops_invariant:
  "primary_key w \<Longrightarrow> isolated w \<Longrightarrow> \<forall>op \<in> set ops. no_foreign_chunk w op \<Longrightarrow>
     primary_key (run_ops e w ops) \<and> isolated (run_ops e w ops) \<and> owner_view (run_ops e w ops) = owner_view w"
proof (induction ops arbitrary: w)
  case Nil
  then show ?case by (simp add: run_ops_def)
next
  case (Cons op ops)
  let ?w1 = "apply_op e w op"
  have ov: "owner_view ?w1 = owner_view w" using Cons.prems(1) by (rule apply_op_owner_view)
  have pk: "primary_key ?w1" using owner_view_primary_key[OF ov] Cons.prems(1) by simp
  have iso: "isolated ?w1" using Cons.prems by (simp add: apply_op_isolated)
  have nf: "\<forall>op \<in> set ops. no_foreign_chunk ?w1 op"
    using Cons.prems(3) by (simp add: no_foreign_chunk_owner_view[OF ov])
  from Cons.IH[OF pk iso nf] ov show ?case by (simp add: run_ops_def)
qed

lemma index_add_ok:
  assumes "vs \<noteq> []" "\<forall>v \<in> set vs. length v = ix_d ix"
  shows "index_add e ix vs = Inr (ix\<lparr>ix_xb := ix_xb ix @ map (np_float32 e) vs\<rparr>)"
proof -
  from assms have "length (hd vs) = ix_d ix" by (cases vs) auto
  with assms show ?thesis by (simp add: index_add_def)
qed

lemma add_step_keys: "map fst (chunk_table (add_step idx cid w)) = map fst (chunk_table w)"
  by (auto simp: add_step_def chunk_save_def split: option.splits)

lemma add_loop_keys:
  "add_loop n i ids (md, w) = (md', w') \<Longrightarrow> map fst (chunk_table w') = map fst (chunk_table w)"
proof (induction ids arbitrary: i md w)
  case Nil
  then show ?case by simp
next
  case (Cons cid rest)
  from Cons.IH[OF Cons.prems[unfolded add_loop_Cons] ] show ?case by (simp add: add_step_keys)
qed

lemma chunk_get_None_keys:
  "chunk_get w c = None \<longleftrightarrow> c \<notin> set (map fst (chunk_table w))"
  by (simp add: chunk_get_def map_of_eq_None_iff)

lemma index_search_ok:
  assumes "length q = ix_d ix" "0 < k"
  shows "index_search e ix q k =
           Inr (take (nat k) (sort_key (\<lambda>i. the (slot_distance e ix q i)) (ranked_slots e ix q)))"
  using assms by (simp add: index_search_def)

lemma set_ranked_slots:
  "set (ranked_slots e ix q) = {i. i < ntotal ix \<and> slot_distance e ix q i \<noteq> None}"
  by (auto simp: ranked_slots_def)

lemma distinct_ranked_slots: "distinct (ranked_slots e ix q)"
  by (simp add: ranked_slots_def)

text \<open>The first \<open>m\<close> elements of a list sorted by a key: they are in ascending order of
  the key, and no element left out has a smaller key than one of them.\<close>

lemma sort_key_take_sorted:
  fixes f :: "'a \<Rightarrow> 'b::linorder"
  shows "sorted (map f (take m (sort_key f xs)))"
proof -
  have "sorted (map f (sort_key f xs))" by (rule sorted_sort_key)
  then have "sorted (take m (map f (sort_key f xs)))" by (rule sorted_wrt_take)
  then show ?thesis by (simp add: take_map)
qed

lemma sort_key_take_nearest:
  fixes f :: "'a \<Rightarrow> 'b::linorder"
  assumes "x \<in> set (take m (sort_key f xs))" "y \<in> set xs" "y \<notin> set (take m (sort_key f xs))"
  shows "f x \<le> f y"
proof -
  let ?s = "sort_key f xs"
  have "sorted (map f (take m ?s) @ map f (drop m ?s))"
    using sorted_sort_key[of f xs] by (metis append_take_drop_id map_append)
  then have "\<forall>a \<in> set (map f (take m ?s)). \<forall>b \<in> set (map f (drop m ?s)). a \<le> b"
    unfolding sorted_append by blast
  then have le: "\<forall>a \<in> set (take m ?s). \<forall>b \<in> set (drop m ?s). f a \<le> f b"
    by simp
  have "set ?s = set (take m ?s) \<union> set (drop m ?s)"
    by (metis append_take_drop_id set_append)
  with assms(2,3) have "y \<in> set (drop m ?s)" by simp
  with le assms(1) show ?thesis by blast
qed

lemma sort_key_unique_min:
  fixes f :: "'a \<Rightarrow> 'b::linorder"
  assumes "x \<in> set xs" "\<forall>y \<in> set xs. y \<noteq> x \<longrightarrow> f x < f y"
  shows "take 1 (sort_key f xs) = [x]"
proof -
  let ?ys = "sort_key f xs"
  have "set ?ys = set xs" by simp
  with assms(1) obtain h t where ys: "?ys = h # t" by (cases ?ys) auto
  have "sorted (map f ?ys)" by (rule sorted_sort_key)
  with ys have le: "\<forall>z \<in> set t. f h \<le> f z" by simp
  have hin: "h \<in> set xs" using ys \<open>set ?ys = set xs\<close> by (metis list.set_intros(1))
  have "h = x"
  proof (rule ccontr)
    assume ne: "h \<noteq> x"
    with assms(2) hin have lt: "f x < f h" by blast
    from assms(1) \<open>set ?ys = set xs\<close> ys ne have "x \<in> set t" by (metis set_ConsD)
    with le have "f h \<le> f x" by blast
    with lt show False by simp
  qed
  with ys show ?thesis by simp
qed

lemma search_no_index:
  "index_files w u = None \<Longrightarrow> search e w u v k = Inr []"
  by (simp add: search_def load_user_index_def ntotal_def)

lemma add_embeddings_fresh:
  assumes "index_files w u = None" "m \<noteq> []" "\<forall>p \<in> set m. length (snd p) = env_dimension e"
  shows "\<exists>w'' md''. add_embeddings e w u m = (Inr (), w'') \<and>
           index_files w'' u = Some \<lparr>ix_d = env_dimension e, ix_xb = map (np_float32 e) (map snd m)\<rparr> \<and>
           metadata_files w'' u = Some md'' \<and>
           (\<forall>s. md'' s = (if s < length m then Some (fst (m ! s)) else None))"
proof -
  let ?ix = "\<lparr>ix_d = env_dimension e, ix_xb = []\<rparr>"
  have l: "load_user_index e w u = (?ix, Map.empty)"
    using assms(1) by (simp add: load_user_index_def)
  have ia: "index_add e ?ix (map snd m) = Inr (?ix\<lparr>ix_xb := ix_xb ?ix @ map (np_float32 e) (map snd m)\<rparr>)"
    using assms(2,3) by (intro index_add_ok) auto
  obtain md' w1 where al: "add_loop (ntotal ?ix) 0 (map fst m) (Map.empty, w) = (md', w1)"
    by (cases "add_loop (ntotal ?ix) 0 (map fst m) (Map.empty, w)")
  have "\<forall>s. md' s = (if s < length m then Some (fst (m ! s)) else None)"
    using add_loop_metadata[OF al] by (simp add: ntotal_def)
  with add_embeddings_Inr[OF l ia al] show ?thesis
    by (simp add: save_user_index_def)
qed

lemmas eval_delete = delete_pdf_vectors_def chunks_filter_def chunk_ordering_def pdf_ordering_key_def
  remove_index_files_def
  embed_chunks_def generate_embeddings_batch_def world_one_doc_def world_two_docs_def belongs_to_document_def

section \<open>Facts about the chunker\<close>

lemma looping_ranges:
  "page_ranges (sort_key fst [(1, looping_page)]) ([], []) = (looping_text, [(1, 0, 131)])"
  by (simp add: looping_text_def looping_page_def Let_def)

lemma looping_length: "int (length looping_text) = 131"
  by (simp add: looping_text_def looping_page_def)

lemma looping_boundary_20: "find_sentence_boundary looping_text 20 100 = 10"
  by code_simp

lemma looping_boundary_25: "find_sentence_boundary looping_text 25 100 = 10"
  by code_simp

lemma looping_slice_0: "strip (py_slice looping_text 0 10) = ''aaaaaaaaa.''"
  by code_simp

lemma looping_slice_5: "strip (py_slice looping_text 5 10) = ''aaaa.''"
  by code_simp

lemma looping_page_0: "get_page_for_position 5 [(1, 0, 131)] [(1, 0, 131)] = Inr 1"
  by simp

lemma looping_page_5: "get_page_for_position 7 [(1, 0, 131)] [(1, 0, 131)] = Inr 1"
  by simp

lemma looping_step_0:
  "chunk_step 20 5 looping_text [(1, 0, 131)] 0 [] 0 =
     Next 5 [\<lparr>cd_text = ''aaaaaaaaa.'', cd_chunk_index = 0, cd_page_number = 1, cd_start_char = 0,
               cd_end_char = 10, cd_token_count = 2\<rparr>] 1"
  by (simp add: chunk_step_def advance_def looping_length looping_boundary_20 looping_slice_0
        looping_page_0 estimate_tokens_def Let_def)

lemma looping_step_5:
  "chunk_step 20 5 looping_text [(1, 0, 131)] 5 chunks chunk_idx =
     Next 5 (chunks @ [\<lparr>cd_text = ''aaaa.'', cd_chunk_index = chunk_idx, cd_page_number = 1,
                         cd_start_char = 5, cd_end_char = 10, cd_token_count = 1\<rparr>]) (chunk_idx + 1)"
  by (simp add: chunk_step_def advance_def looping_length looping_boundary_25 looping_slice_5
        looping_page_5 estimate_tokens_def Let_def)

lemma looping_loop_5:
  "chunk_loop 20 5 looping_text [(1, 0, 131)] fuel 5 chunks chunk_idx = None"
  by (induction fuel arbitrary: chunks chunk_idx) (simp_all add: looping_step_5)





section \<open>Facts about the ingestion pipeline\<close>

lemma map_of_dict_set: "map_of (dict_set d k v) = (map_of d)(k \<mapsto> v)"
  by (induction d) (auto simp: fun_eq_iff)

lemma pdf_get_pdf_save [simp]: "pdf_get (pdf_save pdf_id pdf w) pdf_id = Some pdf"
  by (simp add: pdf_get_def pdf_save_def map_of_dict_set)

lemma status_log_pdf_save [simp]:
  "status_log (pdf_save pdf_id pdf w) = status_log w @ [(pdf_id, pdf_processing_status pdf)]"
  by (simp add: pdf_save_def)

lemma embed_calls_pdf_save [simp]: "embed_calls (pdf_save pdf_id pdf w) = embed_calls w"
  by (simp add: pdf_save_def)






lemma pdf_get_embed_calls [simp]: "pdf_get (w\<lparr>embed_calls := n\<rparr>) pdf_id = pdf_get w pdf_id"
  by (simp add: pdf_get_def)

lemma blank_clean: "clean_text ''   '' = []"
  by code_simp

lemma blank_chunks: "create_chunks 800 100 5 [(1, [])] = Some (Inr [])"
  by code_simp

lemma blank_extract: "extract_text_from_pdf env_blank ''blank.pdf'' = Inr [(1, [])]"
  by (simp add: extract_text_from_pdf_def env_blank_def env0_def blank_clean)






section \<open>Facts about the retrieval orchestrator\<close>


lemma generate_query_embedding_world:
  "generate_query_embedding e w question = (r, w1) \<Longrightarrow> w1 = w\<lparr>embed_calls := Suc (embed_calls w)\<rparr>"
  by (auto simp: generate_query_embedding_def)


section \<open>Claims about the per-user vector index\<close>

text \<open>
  C1 (isolation), as the code has it. \<^verbatim>\<open>add_embeddings\<close> stores whatever chunk ids it is
  given under the user id it is given: it never looks at the owner of a chunk. Isolation
  therefore holds for the sequences of operations in which no \<^verbatim>\<open>add\<close> is handed a chunk id
  that belongs to another user (the ingestion task passes the chunks of the document it just
  created, under that document's user). For every such sequence of add and
  delete-for-document operations, started in a world whose chunk ids are unique and whose
  indexes hold no foreign chunk id, and for all distinct users \<open>A\<close> and \<open>B\<close>, every query
  vector and every \<open>k\<close>: a search for \<open>A\<close> returns no chunk id that belongs to \<open>B\<close>.
\<close>

theorem search_isolation:
  assumes "primary_key w0" and "isolated w0"
    and "\<forall>op \<in> set ops. no_foreign_chunk w0 op"
    and "A \<noteq> B"
    and "search e (run_ops e w0 ops) A v k = Inr ids"
  shows "\<forall>c \<in> set ids. \<not> belongs_to_user (run_ops e w0 ops) c B"
proof
  fix c assume c: "c \<in> set ids"
  let ?w = "run_ops e w0 ops"
  from run_ops_invariant[OF assms(1-3)] have iso: "isolated ?w" by simp
  from search_ids[OF assms(5) c] obtain md s where
    "metadata_files ?w A = Some md" "md s = Some c" by auto
  with iso have "\<forall>r. chunk_get ?w c = Some r \<longrightarrow> chunk_user_id r = A"
    unfolding isolated_def by blast
  with assms(4) show "\<not> belongs_to_user ?w c B"
    by (auto simp: belongs_to_user_def split: option.splits)
qed

theorem search_isolation_witness:
  "primary_key world_two_users \<and> isolated world_two_users \<and>
   no_foreign_chunk world_two_users (Add 1 [(7, [Finite 0])]) \<and>
   no_foreign_chunk world_two_users (Add 2 [(8, [Finite 1])]) \<and>
   no_foreign_chunk world_two_users (DeleteForDocument 9 1) \<and>
   (1::int) \<noteq> 2 \<and>
   search env0 (run_ops env0 world_two_users [Add 1 [(7, [Finite 0])], Add 2 [(8, [Finite 1])], DeleteForDocument 9 1]) 1 [Finite 1] 5 = Inr [7] \<and>
   \<not> belongs_to_user (run_ops env0 world_two_users [Add 1 [(7, [Finite 0])], Add 2 [(8, [Finite 1])], DeleteForDocument 9 1]) 7 2"
proof -
  let ?ops = "[Add 1 [(7, [Finite 0])], Add 2 [(8, [Finite 1])], DeleteForDocument 9 1]"
  have h1: "primary_key world_two_users" by (simp add: eval_defs)
  have h2: "isolated world_two_users" by (simp add: eval_defs)
  have h3: "\<forall>op \<in> set ?ops. no_foreign_chunk world_two_users op" by (simp add: eval_defs)
  have h4: "(1::int) \<noteq> 2" by simp
  have h5: "search env0 (run_ops env0 world_two_users ?ops) 1 [Finite 1] 5 = Inr [7]"
    by (simp add: eval_defs delete_pdf_vectors_def chunks_filter_def chunk_ordering_def pdf_ordering_key_def)
  from search_isolation[OF h1 h2 h3 h4 h5] h1 h2 h3 h4 h5 show ?thesis by simp
qed

text \<open>
  The claim as stated, over any sequence of operations, fails: adding a chunk of user 2
  to the index of user 1 makes the search of user 1 return it.
\<close>

theorem search_isolation_counterexample:
  "search env0 (run_ops env0 world_two_users [Add 1 [(8, [Finite 0])] ]) 1 [Finite 0] 1 = Inr [8] \<and>
   belongs_to_user (run_ops env0 world_two_users [Add 1 [(8, [Finite 0])] ]) 8 2"
  by (simp add: eval_defs)

text \<open>
  C2 (index round trip), as the code has it. Both \<^verbatim>\<open>add_embeddings\<close> and \<^verbatim>\<open>search\<close> cast
  their vectors to float32, and the search returns the slot with the least computed
  distance, the lowest slot among equally near ones. A vector that the user's index
  already holds and whose computed distance to \<open>v\<close> is zero (an equal vector: two chunks
  with the same text, the same document uploaded twice; or a different one that rounds
  to the same float32 values) sits in a lower slot and is returned instead; and a vector
  with a NaN or with a component that overflows float32 is not at distance zero from
  itself. For every user, chunk id \<open>c\<close> and vector \<open>v\<close> of the index's dimension: if the
  computed distance of the float32 cast of \<open>v\<close> to itself is zero and every vector stored in
  the user's index is at a positive computed distance from it (in particular in a fresh
  index), then
  \<^verbatim>\<open>add(user, {c: v})\<close> succeeds and the following \<^verbatim>\<open>search(user, v, 1)\<close> returns exactly
  \<open>[c]\<close>.
\<close>

theorem add_then_search_round_trip:
  assumes "load_user_index e w u = (ix, md)" and "length v = ix_d ix"
    and "env_l2sqr e (np_float32 e v) (np_float32 e v) = Some 0"
    and "\<forall>x \<in> set (ix_xb ix). \<exists>d. env_l2sqr e x (np_float32 e v) = Some d \<and> 0 < d"
  shows "\<exists>w'. add_embeddings e w u [(c, v)] = (Inr (), w') \<and> search e w' u v 1 = Inr [c]"
proof -
  let ?n = "ntotal ix"
  let ?v = "np_float32 e v"
  let ?ix' = "ix\<lparr>ix_xb := ix_xb ix @ [?v]\<rparr>"
  have ia: "index_add e ix (map snd [(c, v)]) = Inr ?ix'"
    using assms(2) index_add_ok[of "[v]" ix e] by simp
  have lv: "length ?v = ix_d ?ix'" using assms(2) by (simp add: np_float32_def)
  obtain md' w1 where al: "add_loop ?n 0 (map fst [(c, v)]) (md, w) = (md', w1)"
    by (cases "add_loop ?n 0 (map fst [(c, v)]) (md, w)")
  let ?w' = "save_user_index w1 u ?ix' md'"
  have r: "add_embeddings e w u [(c, v)] = (Inr (), ?w')"
    by (rule add_embeddings_Inr[OF assms(1) ia al])
  have mdn: "md' ?n = Some c" using add_loop_metadata[OF al, of ?n] by simp
  have l: "load_user_index e ?w' u = (?ix', md')"
    by (simp add: load_user_index_def save_user_index_def)
  let ?f = "\<lambda>i. the (slot_distance e ?ix' ?v i)"
  have dn: "slot_distance e ?ix' ?v ?n = Some 0"
    using assms(3) by (simp add: slot_distance_def ntotal_def)
  have "\<forall>y \<in> set (ranked_slots e ?ix' ?v). y \<noteq> ?n \<longrightarrow> ?f ?n < ?f y"
  proof (intro ballI impI)
    fix y assume "y \<in> set (ranked_slots e ?ix' ?v)" "y \<noteq> ?n"
    then have y: "y < ?n" by (simp add: set_ranked_slots ntotal_def)
    then have "ix_xb ?ix' ! y = ix_xb ix ! y" by (simp add: ntotal_def nth_append)
    moreover have "ix_xb ix ! y \<in> set (ix_xb ix)" using y by (simp add: ntotal_def)
    ultimately obtain d where "slot_distance e ?ix' ?v y = Some d" "0 < d"
      using assms(4) by (auto simp: slot_distance_def)
    with dn show "?f ?n < ?f y" by simp
  qed
  moreover have "?n \<in> set (ranked_slots e ?ix' ?v)"
    using dn by (simp add: set_ranked_slots ntotal_def)
  ultimately have t: "take 1 (sort_key ?f (ranked_slots e ?ix' ?v)) = [?n]"
    by (rule sort_key_unique_min[rotated])
  have k: "min 1 (int (ntotal ?ix')) = 1" by (simp add: ntotal_def)
  have "index_search e ?ix' ?v 1 = Inr [?n]"
    using index_search_ok[of ?v ?ix' 1 e] lv t by simp
  then have "search e ?w' u v 1 = Inr [c]"
    using l k mdn by (simp add: search_def ntotal_def List.map_filter_def)
  with r show ?thesis by blast
qed

theorem add_then_search_round_trip_witness:
  "load_user_index env0 (run_ops env0 world0 [Add 1 [(7, [Finite 0])] ]) 1
      = (\<lparr>ix_d = 1, ix_xb = [ [Finite 0] ]\<rparr>, [0 \<mapsto> 7]) \<and>
   length [Finite 3] = ix_d \<lparr>ix_d = 1, ix_xb = [ [Finite 0] ]\<rparr> \<and>
   np_float32 env0 [Finite 3] = [Finite 3] \<and>
   env_l2sqr env0 [Finite 3] [Finite 3] = Some 0 \<and>
   env_l2sqr env0 [Finite 0] [Finite 3] = Some 9 \<and>
   (\<exists>w'. add_embeddings env0 (run_ops env0 world0 [Add 1 [(7, [Finite 0])] ]) 1 [(8, [Finite 3])] = (Inr (), w') \<and>
      search env0 w' 1 [Finite 3] 1 = Inr [8])"
proof -
  let ?w = "run_ops env0 world0 [Add 1 [(7, [Finite 0])] ]"
  have h1: "load_user_index env0 ?w 1 = (\<lparr>ix_d = 1, ix_xb = [ [Finite 0] ]\<rparr>, [0 \<mapsto> 7])"
    by (simp add: eval_defs)
  have h2: "length [Finite 3] = ix_d \<lparr>ix_d = 1, ix_xb = [ [Finite 0] ]\<rparr>" by simp
  have c: "np_float32 env0 [Finite 3] = [Finite 3]" by (simp add: np_float32_def env0_def)
  have h3': "env_l2sqr env0 [Finite 3] [Finite 3] = Some 0" by (simp add: env0_def)
  have h4': "env_l2sqr env0 [Finite 0] [Finite 3] = Some 9" by (simp add: env0_def)
  from h3' have h3: "env_l2sqr env0 (np_float32 env0 [Finite 3]) (np_float32 env0 [Finite 3]) = Some 0"
    unfolding c .
  from h4' have h4: "\<forall>x \<in> set (ix_xb \<lparr>ix_d = 1, ix_xb = [ [Finite 0] ]\<rparr>).
                   \<exists>d. env_l2sqr env0 x (np_float32 env0 [Finite 3]) = Some d \<and> 0 < d"
    unfolding c by simp
  from add_then_search_round_trip[OF h1 h2 h3 h4, of 8] h1 h2 c h3' h4'
  show ?thesis by blast
qed

text \<open>
  The claim as stated fails: with the vector \<open>[0]\<close> already stored for chunk 7, adding the
  same vector for chunk 8 and searching for it returns chunk 7.
\<close>

theorem add_then_search_round_trip_counterexample:
  "fst (add_embeddings env0 (run_ops env0 world0 [Add 1 [(7, [Finite 0])] ]) 1 [(8, [Finite 0])]) = Inr () \<and>
   search env0 (snd (add_embeddings env0 (run_ops env0 world0 [Add 1 [(7, [Finite 0])] ]) 1 [(8, [Finite 0])])) 1 [Finite 0] 1 = Inr [7]"
  by (simp add: eval_defs)

text \<open>
  C3 (delete by rebuild), as the code has it. \<^verbatim>\<open>delete_pdf_vectors\<close> returns at once when the
  document has no chunk of the user, whatever the index holds. For every document \<open>d\<close> whose
  chunks all belong to user \<open>u\<close>, in a world with unique chunk ids: when
  \<^verbatim>\<open>delete_pdf_vectors(d, u)\<close> returns normally, a following search for \<open>u\<close> returns no chunk id
  of document \<open>d\<close>, for every vector and every \<open>k\<close>; and if \<open>d\<close> has at least one chunk and
  the user has no chunk outside \<open>d\<close>, the user's index file and metadata file are gone, and
  a later add of vectors of the right dimension creates a fresh index holding exactly these
  vectors (their float32 casts), in slots numbered from 0.
\<close>

theorem delete_pdf_vectors_postcondition:
  assumes pk: "primary_key w"
    and owner: "\<forall>r \<in> set (chunk_table w). chunk_pdf_id (snd r) = d \<longrightarrow> chunk_user_id (snd r) = u"
    and del: "delete_pdf_vectors e w d u = (Inr (), w')"
  shows "(\<forall>v k ids. search e w' u v k = Inr ids \<longrightarrow> (\<forall>c \<in> set ids. \<not> belongs_to_document w' c d)) \<and>
         ((\<exists>r \<in> set (chunk_table w). chunk_pdf_id (snd r) = d) \<and>
          (\<forall>r \<in> set (chunk_table w). chunk_user_id (snd r) = u \<longrightarrow> chunk_pdf_id (snd r) = d) \<longrightarrow>
            index_files w' u = None \<and> metadata_files w' u = None \<and>
            (\<forall>m. m \<noteq> [] \<and> (\<forall>p \<in> set m. length (snd p) = env_dimension e) \<longrightarrow>
               (\<exists>w'' md''. add_embeddings e w' u m = (Inr (), w'') \<and>
                  index_files w'' u = Some \<lparr>ix_d = env_dimension e, ix_xb = map (np_float32 e) (map snd m)\<rparr> \<and>
                  metadata_files w'' u = Some md'' \<and>
                  (\<forall>s. md'' s = (if s < length m then Some (fst (m ! s)) else None)))))"
proof (cases rule: delete_pdf_vectors_cases[of w d u e])
  case no_chunks
  with del have w': "w' = w" by simp
  have nod: "\<forall>r \<in> set (chunk_table w). chunk_pdf_id (snd r) \<noteq> d"
    using no_chunks(1) owner by blast
  have "\<And>c. \<not> belongs_to_document w c d"
  proof -
    fix c show "\<not> belongs_to_document w c d"
    proof (cases "chunk_get w c")
      case None
      then show ?thesis by (simp add: belongs_to_document_def)
    next
      case (Some r)
      then have "(c, r) \<in> set (chunk_table w)" by (auto simp: chunk_get_def dest: map_of_SomeD)
      with nod have "chunk_pdf_id r \<noteq> d" by auto
      with Some show ?thesis by (simp add: belongs_to_document_def)
    qed
  qed
  with nod show ?thesis unfolding w' by blast
next
  case none_left
  with del have w': "w' = remove_index_files w u" by simp
  have i: "index_files w' u = None" and m: "metadata_files w' u = None"
    unfolding w' by (simp_all add: remove_index_files_def)
  have "\<And>v k. search e w' u v k = Inr []" using i by (rule search_no_index)
  with i m add_embeddings_fresh[OF i] show ?thesis by auto
next
  case (raised x w1)
  with del show ?thesis by simp
next
  case (rebuilt ids ix')
  let ?md = "map_of (zip [0 ..< length ids] ids)"
  from rebuilt(1) del have w': "w' = save_user_index (w\<lparr>embed_calls := Suc (embed_calls w)\<rparr>) u ix' ?md"
    by simp
  have ct: "chunk_table w' = chunk_table w" unfolding w' by (simp add: save_user_index_def)
  have mf: "metadata_files w' u = Some ?md" unfolding w' by (simp add: save_user_index_def)
  have part1: "\<forall>v k ids'. search e w' u v k = Inr ids' \<longrightarrow> (\<forall>c \<in> set ids'. \<not> belongs_to_document w' c d)"
  proof (intro allI impI ballI)
    fix v k ids' c
    assume s: "search e w' u v k = Inr ids'" and c: "c \<in> set ids'"
    from search_ids[OF s c] mf obtain sl where "?md sl = Some c" by auto
    then have "c \<in> set ids" by (rule map_of_zip_upt_ran)
    with rebuilt(2) obtain r where r: "(c, r) \<in> set (chunk_table w)" "chunk_pdf_id r \<noteq> d"
      by auto
    with pk have "chunk_get w' c = Some r" by (simp add: chunk_get_def primary_key_def ct)
    with r(2) show "\<not> belongs_to_document w' c d" by (simp add: belongs_to_document_def)
  qed
  from rebuilt(3) part1 show ?thesis by blast
qed

theorem delete_pdf_vectors_postcondition_witness:
  "primary_key (run_ops env0 world_one_doc [Add 1 [(7, [Finite 0]), (8, [Finite 1])] ]) \<and>
   list_all (\<lambda>r. chunk_pdf_id (snd r) = 3 \<longrightarrow> chunk_user_id (snd r) = 1)
     (chunk_table (run_ops env0 world_one_doc [Add 1 [(7, [Finite 0]), (8, [Finite 1])] ])) \<and>
   fst (delete_pdf_vectors env0 (run_ops env0 world_one_doc [Add 1 [(7, [Finite 0]), (8, [Finite 1])] ]) 3 1) = Inr () \<and>
   index_files (run_ops env0 world_one_doc [Add 1 [(7, [Finite 0]), (8, [Finite 1])] ]) 1 = Some \<lparr>ix_d = 1, ix_xb = [ [Finite 0], [Finite 1] ]\<rparr> \<and>
   index_files (snd (delete_pdf_vectors env0 (run_ops env0 world_one_doc [Add 1 [(7, [Finite 0]), (8, [Finite 1])] ]) 3 1)) 1 = None \<and>
   metadata_files (snd (delete_pdf_vectors env0 (run_ops env0 world_one_doc [Add 1 [(7, [Finite 0]), (8, [Finite 1])] ]) 3 1)) 1 = None \<and>
   primary_key (run_ops env0 world_two_docs [Add 1 [(7, [Finite 1]), (8, [Finite 2])] ]) \<and>
   list_all (\<lambda>r. chunk_pdf_id (snd r) = 3 \<longrightarrow> chunk_user_id (snd r) = 1)
     (chunk_table (run_ops env0 world_two_docs [Add 1 [(7, [Finite 1]), (8, [Finite 2])] ])) \<and>
   fst (delete_pdf_vectors env0 (run_ops env0 world_two_docs [Add 1 [(7, [Finite 1]), (8, [Finite 2])] ]) 3 1) = Inr () \<and>
   search env0 (run_ops env0 world_two_docs [Add 1 [(7, [Finite 1]), (8, [Finite 2])] ]) 1 [Finite 1] 5 = Inr [7, 8] \<and>
   search env0 (snd (delete_pdf_vectors env0 (run_ops env0 world_two_docs [Add 1 [(7, [Finite 1]), (8, [Finite 2])] ]) 3 1)) 1 [Finite 1] 5 = Inr [8] \<and>
   \<not> belongs_to_document (snd (delete_pdf_vectors env0 (run_ops env0 world_two_docs [Add 1 [(7, [Finite 1]), (8, [Finite 2])] ]) 3 1)) 8 3"
proof -
  let ?wa = "run_ops env0 world_one_doc [Add 1 [(7, [Finite 0]), (8, [Finite 1])] ]"
  let ?wb = "run_ops env0 world_two_docs [Add 1 [(7, [Finite 1]), (8, [Finite 2])] ]"
  let ?wa' = "snd (delete_pdf_vectors env0 ?wa 3 1)"
  let ?wb' = "snd (delete_pdf_vectors env0 ?wb 3 1)"
  have fa: "fst (delete_pdf_vectors env0 ?wa 3 1) = Inr ()"
    by (simp add: eval_defs eval_delete)
  have fb: "fst (delete_pdf_vectors env0 ?wb 3 1) = Inr ()"
    by (simp add: eval_defs eval_delete)
  have da: "delete_pdf_vectors env0 ?wa 3 1 = (Inr (), ?wa')"
    using fa by (simp add: prod_eq_iff)
  have db: "delete_pdf_vectors env0 ?wb 3 1 = (Inr (), ?wb')"
    using fb by (simp add: prod_eq_iff)
  have pa: "primary_key ?wa" by (simp add: eval_defs eval_delete)
  have pb: "primary_key ?wb" by (simp add: eval_defs eval_delete)
  have oa: "\<forall>r \<in> set (chunk_table ?wa). chunk_pdf_id (snd r) = 3 \<longrightarrow> chunk_user_id (snd r) = 1"
    by (simp add: eval_defs eval_delete)
  have ob: "\<forall>r \<in> set (chunk_table ?wb). chunk_pdf_id (snd r) = 3 \<longrightarrow> chunk_user_id (snd r) = 1"
    by (simp add: eval_defs eval_delete)
  have ia: "index_files ?wa 1 = Some \<lparr>ix_d = 1, ix_xb = [ [Finite 0], [Finite 1] ]\<rparr>" by (simp add: eval_defs eval_delete)
  have ea: "\<exists>r \<in> set (chunk_table ?wa). chunk_pdf_id (snd r) = 3" by (simp add: eval_defs eval_delete)
  have aa: "\<forall>r \<in> set (chunk_table ?wa). chunk_user_id (snd r) = 1 \<longrightarrow> chunk_pdf_id (snd r) = 3"
    by (simp add: eval_defs eval_delete)
  have sb0: "search env0 ?wb 1 [Finite 1] 5 = Inr [7, 8]" by (simp add: eval_defs eval_delete)
  have sb: "search env0 ?wb' 1 [Finite 1] 5 = Inr [8]"
    by (simp add: eval_defs eval_delete)
  from delete_pdf_vectors_postcondition[OF pa oa da] ea aa
  have "index_files ?wa' 1 = None \<and> metadata_files ?wa' 1 = None" by blast
  moreover from delete_pdf_vectors_postcondition[OF pb ob db] sb
  have "\<not> belongs_to_document ?wb' 8 3" by auto
  ultimately show ?thesis using pa pb oa ob ia sb0 sb fa fb by (simp add: list_all_iff)
qed

text \<open>
  The second half of the claim as stated fails: the index of user 1 holds a vector for
  chunk id 7, which has no record (see C10); document 5 has no chunks, so the deletion returns
  at its first test. User 1 has no chunks at all, and yet the index is still there and
  still answers.
\<close>

theorem delete_pdf_vectors_counterexample:
  "fst (delete_pdf_vectors env0 (run_ops env0 world0 [Add 1 [(7, [Finite 0])] ]) 5 1) = Inr () \<and>
   chunks_filter (snd (delete_pdf_vectors env0 (run_ops env0 world0 [Add 1 [(7, [Finite 0])] ]) 5 1))
      (\<lambda>c. chunk_user_id c = 1) = [] \<and>
   index_files (snd (delete_pdf_vectors env0 (run_ops env0 world0 [Add 1 [(7, [Finite 0])] ]) 5 1)) 1
      = Some \<lparr>ix_d = 1, ix_xb = [ [Finite 0] ]\<rparr> \<and>
   search env0 (snd (delete_pdf_vectors env0 (run_ops env0 world0 [Add 1 [(7, [Finite 0])] ]) 5 1)) 1 [Finite 0] 1 = Inr [7]"
  by (simp add: eval_defs eval_delete)

text \<open>
  C9 (index corruption), as the code has it. \<^verbatim>\<open>_load_user_index\<close> compares nothing: it
  returns the index file and the metadata file as they are (an empty mapping when only the
  metadata file is missing). For every user with an index file, whatever the size of the
  index and of the mapping, a search with a query of the right dimension and a positive
  \<open>k\<close> does not fail: it takes the \<open>k\<close> nearest slots (all of them when there are
  fewer), nearest first, among the slots that have a computed distance to the float32
  cast of the query, and returns the chunk ids of those that have a mapping entry,
  dropping the others silently. Nearest means: no slot left out is nearer to the query
  than a slot taken.
\<close>

theorem search_serves_mismatched_pair:
  assumes "index_files w u = Some ix" and "length q = ix_d ix" and "0 < k"
    and "query_vector = np_float32 e q"
  shows "\<exists>md slots.
           load_user_index e w u = (ix, md) \<and>
           md = (case metadata_files w u of Some m \<Rightarrow> m | None \<Rightarrow> Map.empty) \<and>
           search e w u q k = Inr (List.map_filter md slots) \<and>
           distinct slots \<and>
           set slots \<subseteq> {i. i < ntotal ix \<and> slot_distance e ix query_vector i \<noteq> None} \<and>
           length slots = min (nat k) (card {i. i < ntotal ix \<and> slot_distance e ix query_vector i \<noteq> None}) \<and>
           sorted (map (\<lambda>i. the (slot_distance e ix query_vector i)) slots) \<and>
           (\<forall>i j. i < ntotal ix \<and> slot_distance e ix query_vector i \<noteq> None \<and> i \<notin> set slots \<and> j \<in> set slots \<longrightarrow>
              the (slot_distance e ix query_vector j) \<le> the (slot_distance e ix query_vector i))"
proof (cases "ntotal ix = 0")
  case True
  let ?md = "case metadata_files w u of Some m \<Rightarrow> m | None \<Rightarrow> Map.empty"
  have l: "load_user_index e w u = (ix, ?md)"
    using assms(1) by (simp add: load_user_index_def)
  have s: "search e w u q k = Inr (List.map_filter ?md [])"
    using l True by (simp add: search_def List.map_filter_def)
  have c: "card {i. i < ntotal ix \<and> slot_distance e ix query_vector i \<noteq> None} = 0" using True by simp
  show ?thesis
  proof (intro exI[of _ ?md] exI[of _ "[]"] conjI)
    show "length ([] :: nat list) = min (nat k) (card {i. i < ntotal ix \<and> slot_distance e ix query_vector i \<noteq> None})"
      unfolding c by simp
  qed (use l s in simp_all)
next
  case False
  let ?md = "case metadata_files w u of Some m \<Rightarrow> m | None \<Rightarrow> Map.empty"
  let ?k = "min k (int (ntotal ix))"
  let ?f = "\<lambda>i. the (slot_distance e ix query_vector i)"
  let ?R = "ranked_slots e ix query_vector"
  let ?slots = "take (nat ?k) (sort_key ?f ?R)"
  have l: "load_user_index e w u = (ix, ?md)"
    using assms(1) by (simp add: load_user_index_def)
  have k: "0 < ?k" using False assms(3) by simp
  have lq: "length query_vector = ix_d ix" using assms(2,4) by (simp add: np_float32_def)
  have s: "search e w u q k = Inr (List.map_filter ?md ?slots)"
    using l False index_search_ok[OF lq k] assms(4) by (simp add: search_def)
  have d: "distinct ?slots" by (simp add: distinct_take distinct_ranked_slots)
  have sub: "set ?slots \<subseteq> {i. i < ntotal ix \<and> slot_distance e ix query_vector i \<noteq> None}"
  proof -
    have "set ?slots \<subseteq> set (sort_key ?f ?R)" by (rule set_take_subset)
    then show ?thesis by (simp add: set_ranked_slots)
  qed
  have c: "card {i. i < ntotal ix \<and> slot_distance e ix query_vector i \<noteq> None} = length ?R"
    using distinct_card[OF distinct_ranked_slots[of e ix query_vector] ] by (simp add: set_ranked_slots)
  have "length ?R \<le> ntotal ix"
    using length_filter_le[of "\<lambda>i. slot_distance e ix query_vector i \<noteq> None" "[0 ..< ntotal ix]"]
    by (simp add: ranked_slots_def)
  then have len: "length ?slots = min (nat k) (card {i. i < ntotal ix \<and> slot_distance e ix query_vector i \<noteq> None})"
    using False assms(3) c by (auto simp: min_def)
  have so: "sorted (map ?f ?slots)" by (rule sort_key_take_sorted)
  have near: "\<forall>i j. i < ntotal ix \<and> slot_distance e ix query_vector i \<noteq> None \<and> i \<notin> set ?slots \<and> j \<in> set ?slots \<longrightarrow>
                ?f j \<le> ?f i"
  proof (intro allI impI)
    fix i j
    assume a: "i < ntotal ix \<and> slot_distance e ix query_vector i \<noteq> None \<and> i \<notin> set ?slots \<and> j \<in> set ?slots"
    then have "i \<in> set ?R" by (simp add: set_ranked_slots)
    with a show "?f j \<le> ?f i" using sort_key_take_nearest[of j "nat ?k" ?f ?R i] by blast
  qed
  from l s d sub len so near show ?thesis by blast
qed

theorem search_serves_mismatched_pair_witness:
  "index_files world_corrupt 1 = Some \<lparr>ix_d = 1, ix_xb = [ [Finite 0], [Finite 1] ]\<rparr> \<and>
   length [Finite 1] = ix_d \<lparr>ix_d = 1, ix_xb = [ [Finite 0], [Finite 1] ]\<rparr> \<and> (0::int) < 1 \<and>
   [Finite 1] = np_float32 env0 [Finite 1] \<and>
   slot_distance env0 \<lparr>ix_d = 1, ix_xb = [ [Finite 0], [Finite 1] ]\<rparr> [Finite 1] 0 = Some 1 \<and>
   slot_distance env0 \<lparr>ix_d = 1, ix_xb = [ [Finite 0], [Finite 1] ]\<rparr> [Finite 1] 1 = Some 0 \<and>
   load_user_index env0 world_corrupt 1 = (\<lparr>ix_d = 1, ix_xb = [ [Finite 0], [Finite 1] ]\<rparr>, [0 \<mapsto> 7]) \<and>
   search env0 world_corrupt 1 [Finite 1] 1 = Inr []"
proof -
  let ?ix = "\<lparr>ix_d = 1, ix_xb = [ [Finite 0], [Finite 1] ]\<rparr>"
  let ?q = "[Finite 1]"
  have h1: "index_files world_corrupt 1 = Some ?ix"
    by (simp add: world_corrupt_def world0_def)
  have h3: "length ?q = ix_d ?ix" by simp
  have h4: "(0::int) < 1" by simp
  have d0: "slot_distance env0 ?ix ?q 0 = Some 1" by (simp add: slot_distance_def env0_def)
  have d1: "slot_distance env0 ?ix ?q 1 = Some 0" by (simp add: slot_distance_def env0_def)
  have R: "{i. i < ntotal ?ix \<and> slot_distance env0 ?ix ?q i \<noteq> None} = {0, 1}"
  proof -
    have "\<And>i. i < ntotal ?ix \<longleftrightarrow> i = 0 \<or> i = 1" by (auto simp: ntotal_def)
    with d0 d1 show ?thesis by auto
  qed
  have h5: "?q = np_float32 env0 ?q" by (simp add: np_float32_def env0_def)
  from search_serves_mismatched_pair[OF h1 h3 h4 h5]
  obtain md slots where
    l: "load_user_index env0 world_corrupt 1 = (?ix, md)" and
    m: "md = (case metadata_files world_corrupt 1 of Some m \<Rightarrow> m | None \<Rightarrow> Map.empty)" and
    s: "search env0 world_corrupt 1 ?q 1 = Inr (List.map_filter md slots)" and
    sub: "set slots \<subseteq> {i. i < ntotal ?ix \<and> slot_distance env0 ?ix ?q i \<noteq> None}" and
    len: "length slots = min (nat 1) (card {i. i < ntotal ?ix \<and> slot_distance env0 ?ix ?q i \<noteq> None})" and
    near: "\<forall>i j. i < ntotal ?ix \<and> slot_distance env0 ?ix ?q i \<noteq> None \<and> i \<notin> set slots \<and> j \<in> set slots \<longrightarrow>
             the (slot_distance env0 ?ix ?q j) \<le> the (slot_distance env0 ?ix ?q i)"
    by blast
  have md: "md = [0 \<mapsto> 7]" using m by (simp add: world_corrupt_def world0_def)
  from len R have "length slots = 1" by simp
  then obtain a where a: "slots = [a]" by (cases slots) auto
  with sub R have "a = 0 \<or> a = 1" by auto
  moreover have "a \<noteq> 0"
  proof
    assume "a = 0"
    with a near[rule_format, of 1 0] d0 d1 show False by (simp add: ntotal_def)
  qed
  ultimately have "slots = [1]" using a by simp
  with s md have "search env0 world_corrupt 1 ?q 1 = Inr []" by (simp add: List.map_filter_def)
  with h1 h3 h4 h5 d0 d1 l md show ?thesis by simp
qed

text \<open>
  The claim as stated fails: an index of two vectors with a mapping of one entry loads, and
  the search answers from the pair: the chunk of the nearest slot when that slot has an
  entry, nothing when it has none.
\<close>

theorem index_corruption_counterexample:
  "ntotal (fst (load_user_index env0 world_corrupt 1)) = 2 \<and>
   dom (snd (load_user_index env0 world_corrupt 1)) = {0} \<and>
   search env0 world_corrupt 1 [Finite 0] 1 = Inr [7] \<and>
   search env0 world_corrupt 1 [Finite 1] 1 = Inr []"
  by (simp add: eval_defs world_corrupt_def)

text \<open>
  C10 (chunk id without a record). For every non-empty mapping of vectors of the index's
  dimension and every chunk id of the mapping that has no stored chunk record:
  \<^verbatim>\<open>add_embeddings\<close> completes without error, the vector (its float32 cast) is in the
  user's index at the slot \<open>ntotal + i\<close> (\<open>i\<close> the position of the id in the mapping),
  the slot maps to the id, and the chunk table still has no record of the id; only the
  update of \<^verbatim>\<open>vector_id\<close> was skipped.
\<close>

theorem add_embeddings_missing_chunk:
  assumes "load_user_index e w u = (ix, md)"
    and "m \<noteq> []" and "\<forall>p \<in> set m. length (snd p) = ix_d ix"
    and "i < length m" and "chunk_get w (fst (m ! i)) = None"
  shows "\<exists>w' ix' md'. add_embeddings e w u m = (Inr (), w') \<and>
           index_files w' u = Some ix' \<and> metadata_files w' u = Some md' \<and>
           ntotal ix' = ntotal ix + length m \<and>
           ix_xb ix' ! (ntotal ix + i) = np_float32 e (snd (m ! i)) \<and>
           md' (ntotal ix + i) = Some (fst (m ! i)) \<and>
           chunk_get w' (fst (m ! i)) = None"
proof -
  let ?ix' = "ix\<lparr>ix_xb := ix_xb ix @ map (np_float32 e) (map snd m)\<rparr>"
  have ia: "index_add e ix (map snd m) = Inr ?ix'"
    using assms(2,3) by (intro index_add_ok) auto
  obtain md' w1 where al: "add_loop (ntotal ix) 0 (map fst m) (md, w) = (md', w1)"
    by (cases "add_loop (ntotal ix) 0 (map fst m) (md, w)")
  let ?w' = "save_user_index w1 u ?ix' md'"
  have r: "add_embeddings e w u m = (Inr (), ?w')"
    by (rule add_embeddings_Inr[OF assms(1) ia al])
  have keys: "map fst (chunk_table ?w') = map fst (chunk_table w)"
    using add_loop_keys[OF al] by (simp add: save_user_index_def)
  have "md' (ntotal ix + i) = Some (fst (m ! i))"
    using add_loop_metadata[OF al, of "ntotal ix + i"] assms(4) by simp
  moreover have "ix_xb ?ix' ! (ntotal ix + i) = np_float32 e (snd (m ! i))"
    using assms(4) by (simp add: ntotal_def nth_append)
  moreover have "chunk_get ?w' (fst (m ! i)) = None"
    using assms(5) unfolding chunk_get_None_keys keys .
  moreover have "ntotal ?ix' = ntotal ix + length m" by (simp add: ntotal_def)
  moreover have "index_files ?w' u = Some ?ix'" "metadata_files ?w' u = Some md'"
    by (simp_all add: save_user_index_def)
  ultimately show ?thesis using r by blast
qed

theorem add_embeddings_missing_chunk_witness:
  "load_user_index env0 world0 1 = (\<lparr>ix_d = 1, ix_xb = []\<rparr>, Map.empty) \<and>
   chunk_get world0 7 = None \<and>
   (\<exists>w' ix' md'. add_embeddings env0 world0 1 [(7, [Finite 0])] = (Inr (), w') \<and>
           index_files w' 1 = Some ix' \<and> metadata_files w' 1 = Some md' \<and>
           ntotal ix' = 1 \<and> ix_xb ix' ! 0 = [Finite 0] \<and> md' 0 = Some 7 \<and> chunk_get w' 7 = None)"
proof -
  have h2: "load_user_index env0 world0 1 = (\<lparr>ix_d = 1, ix_xb = []\<rparr>, Map.empty)"
    by (simp add: eval_defs)
  have h3: "[(7::int, [Finite 0])] \<noteq> []" by simp
  have h4: "\<forall>p \<in> set [(7::int, [Finite 0])]. length (snd p) = ix_d \<lparr>ix_d = 1, ix_xb = []\<rparr>" by simp
  have h5: "(0::nat) < length [(7::int, [Finite 0])]" by simp
  have h6: "chunk_get world0 (fst ([(7::int, [Finite 0])] ! 0)) = None" by (simp add: eval_defs)
  have c: "np_float32 env0 [Finite 0] = [Finite 0]" by (simp add: np_float32_def env0_def)
  from add_embeddings_missing_chunk[OF h2 h3 h4 h5 h6] h2 h6
  show ?thesis by (simp add: ntotal_def c)
qed

section \<open>Claims about the chunker and the ingestion pipeline\<close>

text \<open>
  C4 (chunker termination). The loop of \<^verbatim>\<open>create_chunks\<close> stops when the new start is not
  positive or has reached the end of the text; it does not compare the new start with the
  old one. With \<^verbatim>\<open>chunk_size = 20\<close> and \<^verbatim>\<open>chunk_overlap = 5\<close>, on one page of nine letters, a
  full stop and 120 letters, the first window is cut after the full stop (end 10), the next
  start is 5, and from start 5 the window is cut after the same full stop again: the start
  stays 5 for ever, and every turn appends a chunk. Whatever the fuel, the loop has not
  returned.
\<close>

theorem create_chunks_never_returns:
  "create_chunks 20 5 fuel [(1, looping_page)] = None"
proof (cases fuel)
  case 0
  then show ?thesis unfolding create_chunks_def looping_ranges by simp
next
  case (Suc n)
  then show ?thesis unfolding create_chunks_def looping_ranges
    by (simp add: looping_step_0 looping_loop_5)
qed

text \<open>
  C5 (zero-chunk ingestion). For every document whose pages are extracted and chunked into
  zero chunks: the task returns normally, the document's row has the status failed and the
  error payload that says that no text could be extracted, and the embedding service has
  not been called.
\<close>

theorem zero_chunk_ingestion:
  assumes "pdf_get w pdf_id = Some pdf_file"
    and "extract_text_from_pdf e (pdf_file_path pdf_file) = Inr page_texts"
    and "create_chunks 800 100 fuel page_texts = Some (Inr [])"
  shows "\<exists>w'. process_pdf_async e fuel w pdf_id = Some (Inr ReturnNone, w') \<and>
           map_option pdf_processing_status (pdf_get w' pdf_id) = Some Failed \<and>
           map_option pdf_metadata (pdf_get w' pdf_id) = Some (Some no_text_error) \<and>
           embed_calls w' = embed_calls w"
  using assms
  by (simp add: process_pdf_async_def process_and_save_chunks_def Let_def)

theorem zero_chunk_ingestion_witness:
  "pdf_get world_pending 1 = Some (mk_pdf 1 ''blank.pdf'' Pending) \<and>
   extract_text_from_pdf env_blank (pdf_file_path (mk_pdf 1 ''blank.pdf'' Pending)) = Inr [(1, [])] \<and>
   create_chunks 800 100 5 [(1, [])] = Some (Inr []) \<and>
   (\<exists>w'. process_pdf_async env_blank 5 world_pending 1 = Some (Inr ReturnNone, w') \<and>
           map_option pdf_processing_status (pdf_get w' 1) = Some Failed \<and>
           map_option pdf_metadata (pdf_get w' 1) = Some (Some no_text_error) \<and>
           embed_calls w' = embed_calls world_pending)"
proof -
  have h1: "pdf_get world_pending 1 = Some (mk_pdf 1 ''blank.pdf'' Pending)"
    by (simp add: pdf_get_def world_pending_def world0_def)
  have h2: "extract_text_from_pdf env_blank (pdf_file_path (mk_pdf 1 ''blank.pdf'' Pending)) = Inr [(1, [])]"
    by (simp add: mk_pdf_def blank_extract)
  note h3 = blank_chunks
  from zero_chunk_ingestion[OF h1 h2 h3] h1 h2 h3 show ?thesis by blast
qed




section \<open>Claims about the retrieval orchestrator\<close>

text \<open>
  C7 (empty retrieval). For every user and question: when the question is embedded, the
  search returns, and no chunk is left after hydration and filtering (in particular when the
  search returns nothing, as for a user without documents), \<^verbatim>\<open>ask_question\<close> returns a fixed
  answer (one text when the search found nothing, another when the filters removed
  everything), with no sources and no chunk ids; the generation model has not been called
  and the transcript is untouched.
\<close>

theorem empty_retrieval_short_circuit:
  assumes "generate_query_embedding e w question = (Inr q, w1)"
    and "search e w1 user_id q top_k = Inr chunk_ids"
    and "ordered_chunks w1 user_id chunk_ids pdf_ids = []"
  shows "\<exists>a. ask_question e w user_id question session_id pdf_ids top_k = (Inr a, w1) \<and>
           ans_answer a = (if chunk_ids = [] then no_information_answer
                           else no_information_in_documents_answer) \<and>
           ans_sources a = [] \<and> ans_chunk_ids a = [] \<and>
           gen_calls w1 = gen_calls w \<and> messages w1 = messages w"
proof -
  from generate_query_embedding_world[OF assms(1)]
  have "gen_calls w1 = gen_calls w" "messages w1 = messages w" by simp_all
  with assms show ?thesis by (simp add: ask_question_def Let_def)
qed

theorem empty_retrieval_short_circuit_witness:
  "generate_query_embedding env0 world0 ''q'' = (Inr [Finite 1], world0\<lparr>embed_calls := 1\<rparr>) \<and>
   search env0 (world0\<lparr>embed_calls := 1\<rparr>) 1 [Finite 1] 5 = Inr [] \<and>
   ordered_chunks (world0\<lparr>embed_calls := 1\<rparr>) 1 [] None = [] \<and>
   (\<exists>a. ask_question env0 world0 1 ''q'' None None 5 = (Inr a, world0\<lparr>embed_calls := 1\<rparr>) \<and>
           ans_answer a = (if ([]::int list) = [] then no_information_answer
                           else no_information_in_documents_answer) \<and>
           ans_sources a = [] \<and> ans_chunk_ids a = [] \<and>
           gen_calls (world0\<lparr>embed_calls := 1\<rparr>) = gen_calls world0 \<and>
           messages (world0\<lparr>embed_calls := 1\<rparr>) = messages world0)"
proof -
  have h1: "generate_query_embedding env0 world0 ''q'' = (Inr [Finite 1], world0\<lparr>embed_calls := 1\<rparr>)"
    by (simp add: generate_query_embedding_def generate_embedding_def env0_def world0_def)
  have h2: "search env0 (world0\<lparr>embed_calls := 1\<rparr>) 1 [Finite 1] 5 = Inr []"
    by (simp add: search_def load_user_index_def world0_def ntotal_def)
  have h3: "ordered_chunks (world0\<lparr>embed_calls := 1\<rparr>) 1 [] None = []"
    by (simp add: ordered_chunks_def List.map_filter_def)
  from empty_retrieval_short_circuit[OF h1 h2 h3, of None] h1 h2 h3 show ?thesis by blast
qed




end
